theory Spec2Isabelle
  imports Complex_Main "HOL-Library.AList" "HOL-Library.Sublist"
begin

section \<open>JavaScript values used by the store\<close>

text \<open>
  Text is a list of Latin-1 code units (\<^typ>\<open>string\<close>); \<open>charCodeAt\<close> is \<^const>\<open>of_char\<close>.
  A \<open>Float32Array\<close> is a list of numbers with exact real arithmetic: rounding to 32 or 64
  bits is not part of the model. \<open>Date.now()\<close> is an integer number of milliseconds handed
  to each operation by its caller, and the random part of an identifier is handed in as a
  string. Counts (\<open>limit\<close>, \<open>maxSessions\<close>, \<open>messageCount\<close>) are natural numbers.
\<close>

subsection \<open>Strings\<close>

definition isWhitespace :: "char \<Rightarrow> bool" where
  \<comment> \<open>the regular expression class \<open>\s\<close>, on Latin-1\<close>
  "isWhitespace c = (of_char c \<in> {9, 10, 11, 12, 13, 32, 160 :: nat})"

definition toLowerChar :: "char \<Rightarrow> char" where
  "toLowerChar c =
     (let n = (of_char c :: nat)
      in if (65 \<le> n \<and> n \<le> 90) \<or> (192 \<le> n \<and> n \<le> 214) \<or> (216 \<le> n \<and> n \<le> 222)
         then char_of (n + 32) else c)"

definition toLowerCase :: "string \<Rightarrow> string" where
  "toLowerCase s = map toLowerChar s"

text \<open>\<open>s.replace(/\s/g, '')\<close>\<close>

definition stripWhitespace :: "string \<Rightarrow> string" where
  "stripWhitespace s = filter (\<lambda>c. \<not> isWhitespace c) s"

text \<open>
  \<open>s.split(/\s+/)\<close>: every maximal run of whitespace is one separator. A separator at the
  start or at the end leaves an empty piece there, and the empty string splits into one
  empty piece.
\<close>

function splitWhitespace :: "string \<Rightarrow> string \<Rightarrow> string list" where
  "splitWhitespace cur [] = [cur]"
| "splitWhitespace cur (c # cs) =
     (if isWhitespace c then cur # splitWhitespace [] (dropWhile isWhitespace cs)
      else splitWhitespace (cur @ [c]) cs)"
  by pat_completeness auto
termination
  by (relation "measure (\<lambda>(cur, s). length s)")
     (auto simp: length_dropWhile_le le_imp_less_Suc)

definition split_ws :: "string \<Rightarrow> string list" where
  "split_ws s = splitWhitespace [] s"

text \<open>\<open>s.startsWith(p)\<close> and \<open>s.substr(-n)\<close>\<close>

definition startsWith :: "string \<Rightarrow> string \<Rightarrow> bool" where
  "startsWith s p = (take (length p) s = p)"

definition substrLast :: "nat \<Rightarrow> string \<Rightarrow> string" where
  "substrLast n s = drop (length s - n) s"

text \<open>Decimal rendering of a number inside a template string.\<close>

function showDigits :: "int \<Rightarrow> string" where
  "showDigits n = (if n < 10 then [''0123456789'' ! nat n]
                   else showDigits (n div 10) @ [''0123456789'' ! nat (n mod 10)])"
  by pat_completeness auto
termination
  by (relation "measure nat") auto

definition showInt :: "int \<Rightarrow> string" where
  "showInt i = (if i < 0 then CHR ''-'' # showDigits (- i) else showDigits i)"

subsection \<open>32-bit integers\<close>

definition toInt32 :: "int \<Rightarrow> int" where
  "toInt32 x = (x + 2 ^ 31) mod 2 ^ 32 - 2 ^ 31"

section \<open>Embedding generator (EmbedderModelManager.ts)\<close>

text \<open>
  \<open>simpleHash\<close>: \<open>hash = ((hash << 5) - hash) + char; hash = hash & hash\<close> for every
  character, then \<open>Math.abs\<close>. The shift and the \<open>&\<close> both wrap to 32 bits.
\<close>

definition hashStep :: "int \<Rightarrow> char \<Rightarrow> int" where
  "hashStep hash c = toInt32 ((toInt32 (hash * 32) - hash) + of_char c)"

definition simpleHash :: "string \<Rightarrow> nat" where
  "simpleHash str = nat \<bar>foldl hashStep 0 str\<bar>"

text \<open>\<open>embedding[k] += 1\<close> on a typed array: an index outside the array writes nothing.\<close>

definition bump :: "nat \<Rightarrow> real list \<Rightarrow> real list" where
  "bump k embedding = (if k < length embedding then embedding[k := embedding ! k + 1] else embedding)"

definition bigramFeatures :: "string \<Rightarrow> nat \<Rightarrow> real list \<Rightarrow> real list" where
  \<comment> \<open>\<open>for (i = 0; i < Math.min(chars.length - 1, halfDim); i++)\<close>\<close>
  "bigramFeatures chars halfDim embedding =
     fold (\<lambda>i e. bump (simpleHash (take 2 (drop i chars)) mod halfDim) e)
          [0 ..< nat (min (int (length chars) - 1) (int halfDim))] embedding"

definition wordFeatures :: "string list \<Rightarrow> nat \<Rightarrow> real list \<Rightarrow> real list" where
  \<comment> \<open>\<open>for (i = 0; i < Math.min(words.length, halfDim); i++)\<close>\<close>
  "wordFeatures words halfDim embedding =
     fold (\<lambda>i e. bump (halfDim + simpleHash (words ! i) mod halfDim) e)
          [0 ..< min (length words) halfDim] embedding"

definition featureCounts :: "string \<Rightarrow> nat \<Rightarrow> real list" where
  "featureCounts text dimensions =
     (let embedding = replicate dimensions 0;
          words = split_ws (toLowerCase text);
          chars = stripWhitespace (toLowerCase text);
          halfDim = dimensions div 2
      in wordFeatures words halfDim (bigramFeatures chars halfDim embedding))"

definition magnitude :: "real list \<Rightarrow> real" where
  \<comment> \<open>\<open>Math.sqrt(embedding.reduce((sum, val) => sum + val * val, 0))\<close>\<close>
  "magnitude embedding = sqrt (foldl (\<lambda>sum val. sum + val * val) 0 embedding)"

definition generateSimpleEmbedding :: "string \<Rightarrow> nat \<Rightarrow> real list" where
  "generateSimpleEmbedding text dimensions =
     (let embedding = featureCounts text dimensions;
          m = magnitude embedding
      in if m > 0 then map (\<lambda>v. v / m) embedding else embedding)"

text \<open>
  The manager keeps the current model and, once initialised, an embedding function. Both
  branches of \<open>initializeEmbeddingFunction\<close> install a closure that calls
  \<open>generateSimpleEmbedding(text, model.dimensions)\<close>, so the closure is represented by the
  dimension it captured.
\<close>

record embedder_model =
  model_id :: string
  model_dimensions :: nat

datatype error = NoEmbeddingFunction | EmbeddingFailed | StorageFailed

record embedder_manager =
  currentModel :: "embedder_model option"
  embeddingFunction :: "nat option"

definition availableModels :: "embedder_model list" where
  "availableModels =
     [\<lparr>model_id = ''bge-small-en-v1.5'', model_dimensions = 384\<rparr>,
      \<lparr>model_id = ''all-minilm-l6-v2'', model_dimensions = 384\<rparr>,
      \<lparr>model_id = ''all-mpnet-base-v2'', model_dimensions = 768\<rparr>,
      \<lparr>model_id = ''simple-builtin'', model_dimensions = 128\<rparr>]"

definition initializeEmbeddingFunction :: "embedder_model \<Rightarrow> embedder_manager \<Rightarrow> embedder_manager" where
  "initializeEmbeddingFunction model mgr = mgr\<lparr>embeddingFunction := Some (model_dimensions model)\<rparr>"

definition newManager :: embedder_manager where
  \<comment> \<open>the constructor\<close>
  "newManager = \<lparr>currentModel = find (\<lambda>m. model_id m = ''simple-builtin'') availableModels,
                 embeddingFunction = None\<rparr>"

definition embed :: "string \<Rightarrow> embedder_manager \<Rightarrow> embedder_manager \<times> (error + real list)" where
  "embed text mgr =
     (let mgr1 =
        (if embeddingFunction mgr = None
         then (let mgr0 = (if currentModel mgr = None
                           then mgr\<lparr>currentModel :=
                                  (case find (\<lambda>m. model_id m = ''simple-builtin'') availableModels of
                                     Some m \<Rightarrow> Some m | None \<Rightarrow> Some (hd availableModels))\<rparr>
                           else mgr)
               in initializeEmbeddingFunction (the (currentModel mgr0)) mgr0)
         else mgr)
      in case embeddingFunction mgr1 of
           None \<Rightarrow> (mgr1, Inl NoEmbeddingFunction)
         | Some dimensions \<Rightarrow> (mgr1, Inr (generateSimpleEmbedding text dimensions)))"

text \<open>
  \<open>cosineSimilarity\<close>: one loop accumulates the dot product and both squared norms.
\<close>

definition cosineSums :: "real list \<Rightarrow> real list \<Rightarrow> real \<times> real \<times> real" where
  "cosineSums a b =
     fold (\<lambda>i (dotProduct, normA, normB).
             (dotProduct + a ! i * b ! i, normA + a ! i * a ! i, normB + b ! i * b ! i))
          [0 ..< length a] (0, 0, 0)"

definition cosineSimilarity :: "real list \<Rightarrow> real list \<Rightarrow> real" where
  "cosineSimilarity a b =
     (if length a \<noteq> length b then 0
      else (case cosineSums a b of (dotProduct, normA, normB) \<Rightarrow>
              if sqrt normA = 0 \<or> sqrt normB = 0 then 0
              else dotProduct / (sqrt normA * sqrt normB)))"

section \<open>Data model (types/chat.ts)\<close>

text \<open>
  The optional \<open>metadata\<close> of a message and the optional \<open>embedding\<close> and \<open>metadata\<close> of a
  session are never read or written by the store and are left out. Field names carry a
  prefix because both interfaces have an \<open>id\<close>.
\<close>

datatype role = User | Assistant | System

record chat_message =
  m_id :: string
  m_sessionId :: string
  m_role :: role
  m_content :: string
  m_timestamp :: int
  m_embedding :: "real list option"

record chat_session =
  s_id :: string
  s_title :: string
  s_preview :: string
  s_createdAt :: int
  s_updatedAt :: int
  s_messageCount :: nat

record vector_search_result =
  r_message :: chat_message
  r_similarity :: real

record cleanup_policy =
  maxAge :: int
  maxSessions :: nat

record vector_store_config =
  maxMessagesPerSession :: nat
  embeddingDimensions :: nat
  similarityThreshold :: real
  maxStorageMB :: nat
  cleanupPolicy :: cleanup_policy

text \<open>\<open>Omit<ChatMessage, 'id' | 'timestamp'>\<close> and \<open>Partial<ChatSession>\<close>\<close>

record message_data =
  d_sessionId :: string
  d_role :: role
  d_content :: string
  d_embedding :: "real list option"

record session_updates =
  u_id :: "string option"
  u_title :: "string option"
  u_preview :: "string option"
  u_createdAt :: "int option"
  u_updatedAt :: "int option"
  u_messageCount :: "nat option"

datatype query = QueryText string | QueryVector "real list"

subsection \<open>Maps and objects\<close>

text \<open>
  A JavaScript \<open>Map\<close> is an association list in insertion order whose keys are distinct:
  \<open>get\<close> is \<^const>\<open>map_of\<close>, \<open>set\<close> is \<^const>\<open>AList.update\<close> (an existing key keeps its
  place, a new key goes to the end), \<open>delete\<close> is \<^const>\<open>AList.delete\<close>, and
  \<open>new Map(entries)\<close> sets the entries one after the other.
\<close>

definition mapFromEntries :: "('k \<times> 'v) list \<Rightarrow> ('k \<times> 'v) list" where
  "mapFromEntries entries = fold (\<lambda>(k, v) m. AList.update k v m) entries []"

text \<open>
  A plain object is the list of its properties in creation order. \<open>Object.entries\<close>
  enumerates the keys that are array indices first, in ascending numeric order, then the
  other keys in creation order.
\<close>

definition isDigit :: "char \<Rightarrow> bool" where
  "isDigit c = (48 \<le> (of_char c :: nat) \<and> (of_char c :: nat) \<le> 57)"

definition digitsValue :: "string \<Rightarrow> int" where
  "digitsValue k = foldl (\<lambda>n c. 10 * n + (of_char c - 48)) 0 k"

definition isArrayIndex :: "string \<Rightarrow> bool" where
  "isArrayIndex k =
     (k \<noteq> [] \<and> list_all isDigit k \<and> (hd k \<noteq> CHR ''0'' \<or> length k = 1) \<and> digitsValue k < 2 ^ 32 - 1)"

definition objectFromEntries :: "(string \<times> 'v) list \<Rightarrow> (string \<times> 'v) list" where
  "objectFromEntries entries = fold (\<lambda>(k, v) obj. AList.update k v obj) entries []"

definition objectEntries :: "(string \<times> 'v) list \<Rightarrow> (string \<times> 'v) list" where
  "objectEntries obj =
     sort_key (\<lambda>(k, v). digitsValue k) (filter (\<lambda>(k, v). isArrayIndex k) obj)
     @ filter (\<lambda>(k, v). \<not> isArrayIndex k) obj"

section \<open>Fallback store (SimpleVectorStore)\<close>

record simple_vector_store =
  fb_sessions :: "(string \<times> chat_session) list"
  fb_messages :: "(string \<times> chat_message list) list"
  fb_messageCounter :: nat

definition applyUpdates :: "session_updates \<Rightarrow> chat_session \<Rightarrow> chat_session" where
  \<comment> \<open>\<open>{ ...session, ...updates }\<close>\<close>
  "applyUpdates updates session =
     \<lparr>s_id = (case u_id updates of None \<Rightarrow> s_id session | Some v \<Rightarrow> v),
      s_title = (case u_title updates of None \<Rightarrow> s_title session | Some v \<Rightarrow> v),
      s_preview = (case u_preview updates of None \<Rightarrow> s_preview session | Some v \<Rightarrow> v),
      s_createdAt = (case u_createdAt updates of None \<Rightarrow> s_createdAt session | Some v \<Rightarrow> v),
      s_updatedAt = (case u_updatedAt updates of None \<Rightarrow> s_updatedAt session | Some v \<Rightarrow> v),
      s_messageCount = (case u_messageCount updates of None \<Rightarrow> s_messageCount session | Some v \<Rightarrow> v)\<rparr>"

fun removeFirst :: "string \<Rightarrow> chat_message list \<Rightarrow> chat_message list" where
  \<comment> \<open>\<open>findIndex(msg => msg.id === id)\<close> followed by \<open>splice(index, 1)\<close>\<close>
  "removeFirst ident [] = []"
| "removeFirst ident (msg # msgs) = (if m_id msg = ident then msgs else msg # removeFirst ident msgs)"

definition hasMessage :: "string \<Rightarrow> string \<times> chat_message list \<Rightarrow> bool" where
  \<comment> \<open>\<open>findIndex\<close> did not return -1\<close>
  "hasMessage ident entry = list_ex (\<lambda>msg. m_id msg = ident) (snd entry)"

definition fb_getSession :: "string \<Rightarrow> simple_vector_store \<Rightarrow> chat_session option" where
  "fb_getSession ident fb = map_of (fb_sessions fb) ident"

definition fb_updateSession :: "int \<Rightarrow> string \<Rightarrow> session_updates \<Rightarrow> simple_vector_store \<Rightarrow> simple_vector_store" where
  "fb_updateSession now ident updates fb =
     (case map_of (fb_sessions fb) ident of
        Some session \<Rightarrow>
          fb\<lparr>fb_sessions := AList.update ident ((applyUpdates updates session)\<lparr>s_updatedAt := now\<rparr>) (fb_sessions fb)\<rparr>
      | None \<Rightarrow> fb)"

definition fb_deleteSession :: "string \<Rightarrow> simple_vector_store \<Rightarrow> simple_vector_store" where
  "fb_deleteSession ident fb =
     fb\<lparr>fb_sessions := AList.delete ident (fb_sessions fb), fb_messages := AList.delete ident (fb_messages fb)\<rparr>"

definition fb_deleteMessage :: "string \<Rightarrow> simple_vector_store \<Rightarrow> simple_vector_store" where
  "fb_deleteMessage ident fb =
     (case find (hasMessage ident) (fb_messages fb) of
        None \<Rightarrow> fb
      | Some (sessionId, msgs) \<Rightarrow>
          (let msgs' = removeFirst ident msgs;
               fb1 = fb\<lparr>fb_messages := AList.update sessionId msgs' (fb_messages fb)\<rparr>
           in case map_of (fb_sessions fb1) sessionId of
                Some session \<Rightarrow>
                  fb1\<lparr>fb_sessions := AList.update sessionId (session\<lparr>s_messageCount := length msgs'\<rparr>) (fb_sessions fb1)\<rparr>
              | None \<Rightarrow> fb1))"

definition fb_searchSimilarMessages ::
  "query \<Rightarrow> string option \<Rightarrow> nat \<Rightarrow> simple_vector_store \<Rightarrow> vector_search_result list" where
  "fb_searchSimilarMessages query sessionId limit fb = []"

section \<open>Primary store (LightVectorDB)\<close>

text \<open>
  \<open>AsyncStorage\<close> holds the blob saved under the store's key. A device that is
  \<open>failing\<close> throws on every read and write. The blob is kept as the data that
  \<open>JSON.stringify\<close> was given.
\<close>

record persisted =
  p_sessions :: "(string \<times> chat_session) list"
  p_messages :: "(string \<times> chat_message list) list"
  p_embeddings :: "(string \<times> real list) list"
  p_timestamp :: int

record async_storage =
  item :: "persisted option"
  failing :: bool

definition getItem :: "async_storage \<Rightarrow> error + persisted option" where
  "getItem storage = (if failing storage then Inl StorageFailed else Inr (item storage))"

definition setItem :: "persisted \<Rightarrow> async_storage \<Rightarrow> error + async_storage" where
  "setItem blob storage =
     (if failing storage then Inl StorageFailed else Inr (storage\<lparr>item := Some blob\<rparr>))"

record light_vector_db =
  sessions :: "(string \<times> chat_session) list"
  messages :: "(string \<times> chat_message list) list"
  messageEmbeddings :: "(string \<times> real list) list"
  config :: vector_store_config
  isInitialized :: bool
  fallbackStore :: simple_vector_store
  asyncStorage :: async_storage

definition defaultConfig :: vector_store_config where
  "defaultConfig =
     \<lparr>maxMessagesPerSession = 100, embeddingDimensions = 128, similarityThreshold = 3 / 10,
      maxStorageMB = 25, cleanupPolicy = \<lparr>maxAge = 30, maxSessions = 50\<rparr>\<rparr>"

definition newStore :: "vector_store_config \<Rightarrow> async_storage \<Rightarrow> light_vector_db" where
  \<comment> \<open>the constructor, given the merged configuration and the device\<close>
  "newStore cfg storage =
     \<lparr>sessions = [], messages = [], messageEmbeddings = [], config = cfg, isInitialized = False,
      fallbackStore = \<lparr>fb_sessions = [], fb_messages = [], fb_messageCounter = 0\<rparr>,
      asyncStorage = storage\<rparr>"

text \<open>\<open>saveToStorage\<close> and \<open>loadFromStorage\<close> catch whatever the device throws.\<close>

definition saveToStorage :: "int \<Rightarrow> light_vector_db \<Rightarrow> light_vector_db" where
  "saveToStorage now db =
     (case setItem \<lparr>p_sessions = sessions db, p_messages = messages db,
                    p_embeddings = messageEmbeddings db, p_timestamp = now\<rparr> (asyncStorage db) of
        Inr storage \<Rightarrow> db\<lparr>asyncStorage := storage\<rparr>
      | Inl err \<Rightarrow> db)"

definition loadFromStorage :: "light_vector_db \<Rightarrow> light_vector_db" where
  "loadFromStorage db =
     (case getItem (asyncStorage db) of
        Inl err \<Rightarrow> db
      | Inr None \<Rightarrow> db
      | Inr (Some data) \<Rightarrow>
          db\<lparr>sessions := mapFromEntries (p_sessions data),
             messages := mapFromEntries (p_messages data),
             messageEmbeddings := mapFromEntries (p_embeddings data)\<rparr>)"

definition initialize :: "light_vector_db \<Rightarrow> light_vector_db" where
  "initialize db = (if isInitialized db then db else (loadFromStorage db)\<lparr>isInitialized := True\<rparr>)"

subsection \<open>Sessions\<close>

definition createSession ::
  "int \<Rightarrow> string \<Rightarrow> string option \<Rightarrow> light_vector_db \<Rightarrow> light_vector_db \<times> chat_session" where
  "createSession now randomPart title db0 =
     (let db = initialize db0;
          session = \<lparr>s_id = ''session_'' @ showInt now @ ''_'' @ randomPart,
                     s_title = (case title of None \<Rightarrow> ''New Chat''
                                | Some t \<Rightarrow> if t = [] then ''New Chat'' else t),
                     s_preview = [], s_createdAt = now, s_updatedAt = now, s_messageCount = 0\<rparr>;
          db1 = db\<lparr>sessions := AList.update (s_id session) session (sessions db),
                   messages := AList.update (s_id session) [] (messages db)\<rparr>
      in (saveToStorage now db1, session))"

definition getSession :: "string \<Rightarrow> light_vector_db \<Rightarrow> light_vector_db \<times> chat_session option" where
  "getSession ident db0 =
     (let db = initialize db0
      in case map_of (sessions db) ident of
           Some session \<Rightarrow> (db, Some session)
         | None \<Rightarrow> (db, fb_getSession ident (fallbackStore db)))"

definition getAllSessions :: "light_vector_db \<Rightarrow> light_vector_db \<times> chat_session list" where
  "getAllSessions db0 =
     (let db = initialize db0
      in (db, sort_key (\<lambda>s. - s_updatedAt s) (map snd (sessions db))))"

definition updateSession :: "int \<Rightarrow> string \<Rightarrow> session_updates \<Rightarrow> light_vector_db \<Rightarrow> light_vector_db" where
  "updateSession now ident updates db0 =
     (let db = initialize db0
      in case map_of (sessions db) ident of
           Some session \<Rightarrow>
             saveToStorage now
               (db\<lparr>sessions := AList.update ident ((applyUpdates updates session)\<lparr>s_updatedAt := now\<rparr>) (sessions db)\<rparr>)
         | None \<Rightarrow> db\<lparr>fallbackStore := fb_updateSession now ident updates (fallbackStore db)\<rparr>)"

definition deleteSession :: "int \<Rightarrow> string \<Rightarrow> light_vector_db \<Rightarrow> light_vector_db" where
  "deleteSession now ident db0 =
     (let db = initialize db0;
          db1 = db\<lparr>sessions := AList.delete ident (sessions db),
                   messages := AList.delete ident (messages db),
                   messageEmbeddings := filter (\<lambda>(msgId, e). \<not> startsWith msgId ident) (messageEmbeddings db)\<rparr>;
          db2 = saveToStorage now db1
      in db2\<lparr>fallbackStore := fb_deleteSession ident (fallbackStore db2)\<rparr>)"

subsection \<open>Messages\<close>

definition truncateContent :: "string \<Rightarrow> nat \<Rightarrow> string" where
  "truncateContent content maxLength =
     (if length content > maxLength then take maxLength content @ ''...'' else content)"

definition sessionMessagesOf :: "string \<Rightarrow> light_vector_db \<Rightarrow> chat_message list" where
  \<comment> \<open>\<open>this.messages.get(sessionId) || []\<close>\<close>
  "sessionMessagesOf sessionId db = (case map_of (messages db) sessionId of None \<Rightarrow> [] | Some msgs \<Rightarrow> msgs)"

definition isDuplicate :: "chat_message \<Rightarrow> chat_message list \<Rightarrow> bool" where
  "isDuplicate message sessionMessages =
     list_ex (\<lambda>existing. m_content existing = m_content message \<and>
                          m_role existing = m_role message \<and>
                          \<bar>m_timestamp existing - m_timestamp message\<bar> < 1000) sessionMessages"

text \<open>
  \<open>addMessage\<close>, in the order of the source: build the message, look for a duplicate,
  try to attach an embedding, store the message and update the session, save. The embedder
  \<open>embedText\<close> stands for \<open>embedderModelManager.embed\<close> as the store finds it; an \<open>Inl\<close> is
  an exception, which the inner \<open>try\<close> catches. A duplicate returns the last element of the
  session's list.
\<close>

definition newMessage :: "int \<Rightarrow> string \<Rightarrow> message_data \<Rightarrow> chat_message" where
  "newMessage now randomPart messageData =
     (let sessionPrefix = substrLast 6 (d_sessionId messageData)
      in \<lparr>m_id = ''msg_'' @ sessionPrefix @ ''_'' @ showInt now @ ''_'' @ randomPart,
          m_sessionId = d_sessionId messageData, m_role = d_role messageData,
          m_content = d_content messageData, m_timestamp = now,
          m_embedding = d_embedding messageData\<rparr>)"

definition attachEmbedding ::
  "(string \<Rightarrow> error + real list) \<Rightarrow> chat_message \<Rightarrow> light_vector_db \<Rightarrow> chat_message \<times> light_vector_db" where
  "attachEmbedding embedText message db =
     (case embedText (m_content message) of
        Inr embedding \<Rightarrow>
          (message\<lparr>m_embedding := Some embedding\<rparr>,
           db\<lparr>messageEmbeddings := AList.update (m_id message) embedding (messageEmbeddings db)\<rparr>)
      | Inl err \<Rightarrow> (message, db))"

definition storeMessage :: "int \<Rightarrow> chat_message list \<Rightarrow> chat_message \<Rightarrow> light_vector_db \<Rightarrow> light_vector_db" where
  "storeMessage now sessionMessages message db =
     (let sessionMessages1 = sessionMessages @ [message];
          db1 = db\<lparr>messages := AList.update (m_sessionId message) sessionMessages1 (messages db)\<rparr>
      in case map_of (sessions db1) (m_sessionId message) of
           Some session \<Rightarrow>
             db1\<lparr>sessions :=
                   AList.update (m_sessionId message)
                     (session\<lparr>s_messageCount := length sessionMessages1, s_updatedAt := now,
                              s_preview := truncateContent (m_content message) 100\<rparr>)
                     (sessions db1)\<rparr>
         | None \<Rightarrow> db1)"

definition addMessage ::
  "(string \<Rightarrow> error + real list) \<Rightarrow> int \<Rightarrow> string \<Rightarrow> message_data \<Rightarrow> light_vector_db
     \<Rightarrow> light_vector_db \<times> chat_message" where
  "addMessage embedText now randomPart messageData db0 =
     (let db = initialize db0;
          message = newMessage now randomPart messageData;
          sessionMessages = sessionMessagesOf (d_sessionId messageData) db
      in if isDuplicate message sessionMessages then (db, last sessionMessages)
         else
           (let (message1, db1) = attachEmbedding embedText message db
            in (saveToStorage now (storeMessage now sessionMessages message1 db1), message1)))"

definition getMessages ::
  "string \<Rightarrow> nat option \<Rightarrow> light_vector_db \<Rightarrow> light_vector_db \<times> chat_message list" where
  \<comment> \<open>\<open>limit ? messages.slice(-limit) : messages\<close>\<close>
  "getMessages sessionId limit db0 =
     (let db = initialize db0;
          msgs = sessionMessagesOf sessionId db
      in (db, case limit of None \<Rightarrow> msgs
              | Some n \<Rightarrow> if n = 0 then msgs else drop (length msgs - n) msgs))"

definition deleteMessage :: "int \<Rightarrow> string \<Rightarrow> light_vector_db \<Rightarrow> light_vector_db" where
  "deleteMessage now ident db0 =
     (let db = initialize db0;
          db4 =
            (case find (hasMessage ident) (messages db) of
               None \<Rightarrow> db
             | Some (sessionId, msgs) \<Rightarrow>
                 (let msgs' = removeFirst ident msgs;
                      db1 = db\<lparr>messages := AList.update sessionId msgs' (messages db),
                               messageEmbeddings := AList.delete ident (messageEmbeddings db)\<rparr>;
                      db2 = (case map_of (sessions db1) sessionId of
                               Some session \<Rightarrow>
                                 db1\<lparr>sessions :=
                                       AList.update sessionId
                                         (session\<lparr>s_messageCount := length msgs', s_updatedAt := now\<rparr>)
                                         (sessions db1)\<rparr>
                             | None \<Rightarrow> db1)
                  in saveToStorage now db2))
      in db4\<lparr>fallbackStore := fb_deleteMessage ident (fallbackStore db4)\<rparr>)"

subsection \<open>Similarity search\<close>

definition inScope :: "string option \<Rightarrow> string \<Rightarrow> bool" where
  \<comment> \<open>the negation of \<open>sessionId && sid !== sessionId\<close>: an empty string is not a filter\<close>
  "inScope sessionId sid =
     (case sessionId of None \<Rightarrow> True | Some s \<Rightarrow> s = [] \<or> sid = s)"

definition scanMessages ::
  "real list \<Rightarrow> light_vector_db \<Rightarrow> chat_message list \<Rightarrow> vector_search_result list" where
  "scanMessages queryEmbedding db msgs =
     concat (map (\<lambda>message.
        case map_of (messageEmbeddings db) (m_id message) of
          None \<Rightarrow> []
        | Some messageEmbedding \<Rightarrow>
            (let similarity = cosineSimilarity queryEmbedding messageEmbedding
             in if similarity \<ge> similarityThreshold (config db)
                then [\<lparr>r_message = message, r_similarity = similarity\<rparr>] else [])) msgs)"

definition scanStore ::
  "real list \<Rightarrow> string option \<Rightarrow> light_vector_db \<Rightarrow> vector_search_result list" where
  "scanStore queryEmbedding sessionId db =
     concat (map (\<lambda>(sid, msgs). if inScope sessionId sid then scanMessages queryEmbedding db msgs else [])
                 (messages db))"

definition searchSimilarMessages ::
  "(string \<Rightarrow> error + real list) \<Rightarrow> query \<Rightarrow> string option \<Rightarrow> nat \<Rightarrow> light_vector_db
     \<Rightarrow> light_vector_db \<times> vector_search_result list" where
  "searchSimilarMessages embedText query sessionId limit db0 =
     (let db = initialize db0
      in case (case query of QueryText text \<Rightarrow> embedText text | QueryVector v \<Rightarrow> Inr v) of
           Inl err \<Rightarrow> (db, fb_searchSimilarMessages query sessionId limit (fallbackStore db))
         | Inr queryEmbedding \<Rightarrow>
             (db, take limit (sort_key (\<lambda>r. - r_similarity r) (scanStore queryEmbedding sessionId db))))"

subsection \<open>Retention\<close>

definition cleanup :: "int \<Rightarrow> light_vector_db \<Rightarrow> light_vector_db" where
  "cleanup now db0 =
     (let db = initialize db0;
          cutoffDate = now - maxAge (cleanupPolicy (config db)) * 24 * 60 * 60 * 1000;
          db1 = fold (\<lambda>(ident, session) d. if s_createdAt session < cutoffDate then deleteSession now ident d else d)
                     (sessions db) db;
          sorted = sort_key (\<lambda>s. - s_updatedAt s) (map snd (sessions db1));
          db2 = (if length sorted > maxSessions (cleanupPolicy (config db1))
                 then fold (\<lambda>session d. deleteSession now (s_id session) d)
                           (drop (maxSessions (cleanupPolicy (config db1))) sorted) db1
                 else db1)
      in saveToStorage now db2)"

subsection \<open>Export and import\<close>

record snapshot =
  sn_sessions :: "chat_session list option"
  sn_messages :: "(string \<times> chat_message list) list option"
  sn_embeddings :: "(string \<times> real list) list option"
  sn_config :: "vector_store_config option"
  sn_timestamp :: "int option"

definition exportData :: "int \<Rightarrow> light_vector_db \<Rightarrow> light_vector_db \<times> snapshot" where
  "exportData now db0 =
     (let db = initialize db0
      in (db, \<lparr>sn_sessions = Some (map snd (sessions db)),
               sn_messages = Some (objectFromEntries (messages db)),
               sn_embeddings = Some (objectFromEntries (messageEmbeddings db)),
               sn_config = Some (config db),
               sn_timestamp = Some now\<rparr>))"

definition importData :: "int \<Rightarrow> snapshot \<Rightarrow> light_vector_db \<Rightarrow> light_vector_db" where
  "importData now data db0 =
     (let db = initialize db0;
          db1 = (case sn_sessions data of
                   Some ss \<Rightarrow> db\<lparr>sessions := mapFromEntries (map (\<lambda>s. (s_id s, s)) ss)\<rparr>
                 | None \<Rightarrow> db);
          db2 = (case sn_messages data of
                   Some obj \<Rightarrow> db1\<lparr>messages := mapFromEntries (objectEntries obj)\<rparr>
                 | None \<Rightarrow> db1);
          db3 = (case sn_embeddings data of
                   Some obj \<Rightarrow> db2\<lparr>messageEmbeddings := mapFromEntries (objectEntries obj)\<rparr>
                 | None \<Rightarrow> db2)
      in saveToStorage now db3)"

section \<open>Properties of a store\<close>

text \<open>The keys of each map are distinct, as the keys of a \<open>Map\<close> are.\<close>

definition mapsDistinct :: "light_vector_db \<Rightarrow> bool" where
  "mapsDistinct db =
     (distinct (map fst (sessions db)) \<and> distinct (map fst (messages db)) \<and>
      distinct (map fst (messageEmbeddings db)))"

text \<open>Every session is stored under its own id.\<close>

definition keyedById :: "light_vector_db \<Rightarrow> bool" where
  "keyedById db = list_all (\<lambda>(k, s). s_id s = k) (sessions db)"

text \<open>\<open>messageCount\<close> of every session is the length of the list stored for its key.\<close>

definition countsMatch :: "light_vector_db \<Rightarrow> bool" where
  "countsMatch db = list_all (\<lambda>(k, s). s_messageCount s = length (sessionMessagesOf k db)) (sessions db)"

text \<open>
  A consistent store is initialised, its maps have distinct keys, and its counts match. A
  consistent snapshot carries sessions and messages (an object, so with distinct keys), and
  every session's \<open>messageCount\<close> is the length of the list its \<open>id\<close> selects in
  \<open>messages\<close>.
\<close>

definition consistentStore :: "light_vector_db \<Rightarrow> bool" where
  "consistentStore db = (isInitialized db \<and> mapsDistinct db \<and> countsMatch db)"

definition snapshotConsistent :: "snapshot \<Rightarrow> bool" where
  "snapshotConsistent data =
     (case sn_sessions data of
        None \<Rightarrow> False
      | Some ss \<Rightarrow>
          (case sn_messages data of
             None \<Rightarrow> False
           | Some obj \<Rightarrow>
               distinct (map fst obj) \<and>
               list_all (\<lambda>s. s_messageCount s =
                              length (case map_of obj (s_id s) of None \<Rightarrow> [] | Some msgs \<Rightarrow> msgs)) ss))"

section \<open>Example stores\<close>

definition workingDevice :: async_storage where
  "workingDevice = \<lparr>item = None, failing = False\<rparr>"

definition failingDevice :: async_storage where
  "failingDevice = \<lparr>item = None, failing = True\<rparr>"

definition emptyStore :: light_vector_db where
  \<comment> \<open>a new store after \<open>initialize\<close> found nothing saved\<close>
  "emptyStore = (newStore defaultConfig workingDevice)\<lparr>isInitialized := True\<rparr>"

definition fallbackOnlySession :: chat_session where
  "fallbackOnlySession =
     \<lparr>s_id = ''session_7_x'', s_title = ''New Chat'', s_preview = [], s_createdAt = 7,
      s_updatedAt = 7, s_messageCount = 0\<rparr>"

definition fallbackOnlyStore :: light_vector_db where
  "fallbackOnlyStore =
     emptyStore\<lparr>fallbackStore :=
       \<lparr>fb_sessions = [(''session_7_x'', fallbackOnlySession)],
        fb_messages = [(''session_7_x'', [])], fb_messageCounter = 0\<rparr>\<rparr>"

text \<open>
  One conversation: a session created at time 0, a greeting stored at time 1000, and the
  same greeting sent again at times 1900 and 2800.
\<close>

definition unitEmbedder :: "string \<Rightarrow> error + real list" where
  "unitEmbedder text = Inr [1, 0]"

definition greeting :: message_data where
  "greeting = \<lparr>d_sessionId = ''session_0_r'', d_role = User, d_content = ''Hi'', d_embedding = None\<rparr>"

definition chatStore0 :: light_vector_db where
  "chatStore0 = fst (createSession 0 ''r'' None emptyStore)"

definition chatStore1 :: light_vector_db where
  "chatStore1 = fst (addMessage unitEmbedder 1000 ''a'' greeting chatStore0)"

definition chatStore2 :: light_vector_db where
  "chatStore2 = fst (addMessage unitEmbedder 1900 ''b'' greeting chatStore1)"

definition chatStore3 :: light_vector_db where
  "chatStore3 = fst (addMessage unitEmbedder 2800 ''c'' greeting chatStore2)"

text \<open>A store whose device throws on every write, holding one empty session.\<close>

definition offlineStore :: light_vector_db where
  "offlineStore =
     \<lparr>sessions = [(''session_0_r'', \<lparr>s_id = ''session_0_r'', s_title = ''New Chat'', s_preview = [],
                                        s_createdAt = 0, s_updatedAt = 0, s_messageCount = 0\<rparr>)],
      messages = [(''session_0_r'', [])], messageEmbeddings = [], config = defaultConfig,
      isInitialized = True,
      fallbackStore = \<lparr>fb_sessions = [], fb_messages = [], fb_messageCounter = 0\<rparr>,
      asyncStorage = failingDevice\<rparr>"

text \<open>
  Two sessions under a cap of one. The first is created at time 1 and, at time 2, updated
  with a new \<open>id\<close> field; the second is created at time 3. In \<open>mixStore\<close> the new id is
  fresh, in \<open>clashStore\<close> it is the id of the second session.
\<close>

definition cappedStore :: light_vector_db where
  "cappedStore =
     (newStore (defaultConfig\<lparr>cleanupPolicy := \<lparr>maxAge = 30, maxSessions = 1\<rparr>\<rparr>) workingDevice)
       \<lparr>isInitialized := True\<rparr>"

definition newId :: "string \<Rightarrow> session_updates" where
  "newId k = \<lparr>u_id = Some k, u_title = None, u_preview = None, u_createdAt = None,
              u_updatedAt = None, u_messageCount = None\<rparr>"

definition mixStore :: light_vector_db where
  "mixStore =
     fst (createSession 3 ''b'' (Some ''B'')
       (updateSession 2 ''session_1_a'' (newId ''renamed'')
         (fst (createSession 1 ''a'' (Some ''A'') cappedStore))))"

definition clashStore :: light_vector_db where
  "clashStore =
     fst (createSession 3 ''b'' (Some ''B'')
       (updateSession 2 ''session_1_a'' (newId ''session_3_b'')
         (fst (createSession 1 ''a'' (Some ''A'') cappedStore))))"

text \<open>An update that sets only \<open>messageCount\<close>, and a snapshot whose one session claims five
  messages while its \<open>messages\<close> object is empty.\<close>

definition setCount :: "nat \<Rightarrow> session_updates" where
  "setCount n = \<lparr>u_id = None, u_title = None, u_preview = None, u_createdAt = None,
                 u_updatedAt = None, u_messageCount = Some n\<rparr>"

definition retitle :: "string \<Rightarrow> session_updates" where
  "retitle t = \<lparr>u_id = None, u_title = Some t, u_preview = None, u_createdAt = None,
                u_updatedAt = None, u_messageCount = None\<rparr>"

definition staleSnapshot :: snapshot where
  "staleSnapshot =
     \<lparr>sn_sessions = Some [\<lparr>s_id = ''session_0_r'', s_title = ''New Chat'', s_preview = ''Hi'',
                            s_createdAt = 0, s_updatedAt = 1000, s_messageCount = 5\<rparr>],
      sn_messages = Some [], sn_embeddings = Some [], sn_config = None, sn_timestamp = None\<rparr>"

text \<open>
  Three sessions under a cap of one and a maximum age of 30 days, created 40, 5 and 4 days
  before the clean-up at 3456000000 ms.
\<close>

definition agedStore :: light_vector_db where
  "agedStore =
     fst (createSession 3110400000 ''c'' None
       (fst (createSession 3024000000 ''b'' None
         (fst (createSession 0 ''a'' None cappedStore)))))"

section \<open>Cosine similarity\<close>

lemma cosineSums_eq:
  "cosineSums a b = (\<Sum>i<length a. a ! i * b ! i, \<Sum>i<length a. a ! i * a ! i, \<Sum>i<length a. b ! i * b ! i)"
proof -
  have "fold (\<lambda>i (d, na, nb). (d + a ! i * b ! i, na + a ! i * a ! i, nb + b ! i * b ! i)) [0 ..< n] (0, 0, 0)
        = (\<Sum>i<n. a ! i * b ! i, \<Sum>i<n. a ! i * a ! i, \<Sum>i<n. b ! i * b ! i)" for n
    by (induction n) simp_all
  then show ?thesis by (simp add: cosineSums_def)
qed

lemma sum_nth_sq: "(\<Sum>i<length v. v ! i * v ! i) = (\<Sum>x\<leftarrow>v. x * x)" for v :: "real list"
proof -
  have "sum_list (map (\<lambda>x. x * x) v) = (\<Sum>i<length v. map (\<lambda>x. x * x) v ! i)"
    by (simp add: sum_list_sum_nth atLeast0LessThan)
  then show ?thesis by simp
qed

lemma foldl_sq: "foldl (\<lambda>sum val. sum + val * val) s v = s + (\<Sum>x\<leftarrow>v. x * x)" for v :: "real list"
  by (induction v arbitrary: s) simp_all

lemma magnitude_eq: "magnitude v = sqrt (\<Sum>x\<leftarrow>v. x * x)"
  by (simp add: magnitude_def foldl_sq)

lemma sumsq_nonneg: "0 \<le> (\<Sum>x\<leftarrow>v. x * x)" for v :: "real list"
  by (induction v) simp_all

lemma sumsq_zero_iff: "(\<Sum>x\<leftarrow>v. x * x) = 0 \<longleftrightarrow> (\<forall>x\<in>set v. x = 0)" for v :: "real list"
proof (induction v)
  case Nil
  then show ?case by simp
next
  case (Cons a v)
  have "a * a + (\<Sum>x\<leftarrow>v. x * x) = 0 \<longleftrightarrow> a * a = 0 \<and> (\<Sum>x\<leftarrow>v. x * x) = 0"
    using sumsq_nonneg [of v] by (intro add_nonneg_eq_0_iff) simp_all
  with Cons show ?case by simp
qed

lemma magnitude_zero_iff: "magnitude v = 0 \<longleftrightarrow> (\<forall>x\<in>set v. x = 0)"
  by (simp add: magnitude_eq sumsq_zero_iff)

lemma cosineSimilarity_eq:
  "cosineSimilarity a b =
     (if length a \<noteq> length b \<or> magnitude a = 0 \<or> magnitude b = 0 then 0
      else (\<Sum>i<length a. a ! i * b ! i) / (magnitude a * magnitude b))"
  by (auto simp: cosineSimilarity_def cosineSums_eq magnitude_eq sum_nth_sq [symmetric])

text \<open>
  Claim C5. \<open>cosineSimilarity a b\<close> is 0 when the two vectors differ in length and when
  either has magnitude zero; it is a total function, so no input raises; otherwise it is the
  dot product divided by the product of the magnitudes, and a vector that is not all zero has
  similarity 1 with itself. Arithmetic is exact here, so the spec's "about 1" is "equal to 1".
\<close>

theorem cosineSimilarity_contract:
  "(length a \<noteq> length b \<longrightarrow> cosineSimilarity a b = 0) \<and>
   (magnitude a = 0 \<or> magnitude b = 0 \<longrightarrow> cosineSimilarity a b = 0) \<and>
   (length a = length b \<and> magnitude a \<noteq> 0 \<and> magnitude b \<noteq> 0 \<longrightarrow>
      cosineSimilarity a b = (\<Sum>i<length a. a ! i * b ! i) / (magnitude a * magnitude b)) \<and>
   ((\<exists>x\<in>set v. x \<noteq> 0) \<longrightarrow> cosineSimilarity v v = 1)"
proof -
  have "cosineSimilarity v v = 1" if "\<exists>x\<in>set v. x \<noteq> 0"
  proof -
    from that have nz: "(\<Sum>x\<leftarrow>v. x * x) \<noteq> 0" by (simp add: sumsq_zero_iff)
    have "magnitude v * magnitude v = (\<Sum>x\<leftarrow>v. x * x)"
      by (simp add: magnitude_eq sumsq_nonneg)
    with nz show ?thesis
      by (simp add: cosineSimilarity_eq sum_nth_sq magnitude_eq)
  qed
  then show ?thesis by (simp add: cosineSimilarity_eq)
qed

theorem cosineSimilarity_contract_witness:
  "length [1, 0 :: real] \<noteq> length [1 :: real] \<and> cosineSimilarity [1, 0] [1] = 0 \<and>
   magnitude [0, 0] = 0 \<and> cosineSimilarity [0, 0] [1, 0] = 0 \<and>
   magnitude [0, 1] \<noteq> 0 \<and> magnitude [1, 0] \<noteq> 0 \<and> cosineSimilarity [0, 1] [1, 0] = 0 \<and>
   (\<exists>x\<in>set [3, 4 :: real]. x \<noteq> 0) \<and> cosineSimilarity [3, 4] [3, 4] = 1"
  using cosineSimilarity_contract [of "[1, 0]" "[1]" "[3, 4]"]
        cosineSimilarity_contract [of "[0, 0]" "[1, 0]" "[3, 4]"]
        cosineSimilarity_contract [of "[0, 1]" "[1, 0]" "[3, 4]"]
  by (simp add: magnitude_def)

section \<open>Embedding generator: norm and the empty text\<close>

lemma bump_length [simp]: "length (bump k e) = length e"
  by (simp add: bump_def)

lemma bump_nonneg: "\<forall>x\<in>set e. 0 \<le> x \<Longrightarrow> \<forall>x\<in>set (bump k e). 0 \<le> x"
  by (auto simp: bump_def set_conv_nth nth_list_update)

lemma sum_list_update_real:
  "k < length e \<Longrightarrow> sum_list (e[k := e ! k + 1]) = sum_list e + (1 :: real)"
proof (induction e arbitrary: k)
  case Nil
  then show ?case by simp
next
  case (Cons a e)
  then show ?case by (cases k) simp_all
qed

lemma bump_sum: "k < length e \<Longrightarrow> sum_list (bump k e) = sum_list e + 1"
  by (simp add: bump_def sum_list_update_real)

lemma fold_bump:
  assumes "\<forall>i\<in>set js. f i < length e" and "\<forall>x\<in>set e. 0 \<le> x"
  shows "length (fold (\<lambda>i. bump (f i)) js e) = length e \<and>
         (\<forall>x\<in>set (fold (\<lambda>i. bump (f i)) js e). 0 \<le> x) \<and>
         sum_list (fold (\<lambda>i. bump (f i)) js e) = sum_list e + real (length js)"
  using assms
proof (induction js arbitrary: e)
  case Nil
  then show ?case by simp
next
  case (Cons j js)
  have "\<forall>i\<in>set js. f i < length (bump (f j) e)" using Cons.prems by simp
  moreover have "\<forall>x\<in>set (bump (f j) e). 0 \<le> x" using Cons.prems by (intro bump_nonneg)
  ultimately have IH: "length (fold (\<lambda>i. bump (f i)) js (bump (f j) e)) = length (bump (f j) e) \<and>
         (\<forall>x\<in>set (fold (\<lambda>i. bump (f i)) js (bump (f j) e)). 0 \<le> x) \<and>
         sum_list (fold (\<lambda>i. bump (f i)) js (bump (f j) e)) = sum_list (bump (f j) e) + real (length js)"
    by (rule Cons.IH)
  have "sum_list (bump (f j) e) = sum_list e + 1" using Cons.prems by (simp add: bump_sum)
  with IH show ?case by simp
qed

lemma splitWhitespace_nonempty: "splitWhitespace cur s \<noteq> []"
  by (induction cur s rule: splitWhitespace.induct) simp_all

lemma featureCounts_props:
  assumes "2 \<le> d"
  shows "length (featureCounts t d) = d \<and> (\<forall>x\<in>set (featureCounts t d). 0 \<le> x) \<and>
         1 \<le> sum_list (featureCounts t d)"
proof -
  define h where "h = d div 2"
  define ws where "ws = split_ws (toLowerCase t)"
  define cs where "cs = stripWhitespace (toLowerCase t)"
  define e1 where "e1 = bigramFeatures cs h (replicate d 0)"
  from assms have h: "1 \<le> h" "2 * h \<le> d" by (simp_all add: h_def)
  have ws: "1 \<le> length ws"
    using splitWhitespace_nonempty [of "[]" "toLowerCase t"]
    by (cases ws) (simp_all add: ws_def split_ws_def)
  have bidx: "\<forall>i\<in>set [0 ..< nat (min (int (length cs) - 1) (int h))].
                simpleHash (take 2 (drop i cs)) mod h < length (replicate d (0::real))"
  proof
    fix i
    have "simpleHash (take 2 (drop i cs)) mod h < h" using h by simp
    with h show "simpleHash (take 2 (drop i cs)) mod h < length (replicate d (0::real))" by simp
  qed
  have b: "length e1 = length (replicate d (0::real)) \<and> (\<forall>x\<in>set e1. 0 \<le> x) \<and>
           sum_list e1 = sum_list (replicate d (0::real)) + real (length [0 ..< nat (min (int (length cs) - 1) (int h))])"
    unfolding e1_def bigramFeatures_def
    by (rule fold_bump [OF bidx]) simp
  then have e1: "length e1 = d" "\<forall>x\<in>set e1. 0 \<le> x" "0 \<le> sum_list e1"
    by (simp_all add: sum_list_replicate)
  have idx: "\<forall>i\<in>set [0 ..< min (length ws) h]. h + simpleHash (ws ! i) mod h < length e1"
  proof
    fix i
    have "simpleHash (ws ! i) mod h < h" using h by simp
    with h e1 show "h + simpleHash (ws ! i) mod h < length e1" by simp
  qed
  have w: "length (wordFeatures ws h e1) = length e1 \<and> (\<forall>x\<in>set (wordFeatures ws h e1). 0 \<le> x) \<and>
           sum_list (wordFeatures ws h e1) = sum_list e1 + real (length [0 ..< min (length ws) h])"
    unfolding wordFeatures_def
    using fold_bump [of "[0 ..< min (length ws) h]" "\<lambda>i. h + simpleHash (ws ! i) mod h" e1] idx e1(2)
    by simp
  have "1 \<le> min (length ws) h" using ws h by simp
  then have "(1::real) \<le> real (min (length ws) h)" by linarith
  moreover from w have "sum_list (wordFeatures ws h e1) = sum_list e1 + real (min (length ws) h)"
    by simp
  ultimately have "1 \<le> sum_list (wordFeatures ws h e1)" using e1(3) by linarith
  moreover have "featureCounts t d = wordFeatures ws h e1"
    by (simp add: featureCounts_def Let_def ws_def cs_def h_def e1_def)
  ultimately show ?thesis using w e1 by simp
qed


lemma magnitude_nonneg: "0 \<le> magnitude v"
  by (simp add: magnitude_eq sumsq_nonneg)

lemma sumsq_scale: "(\<Sum>x\<leftarrow>v. x * x / c) = (\<Sum>x\<leftarrow>v. x * x) / c" for v :: "real list"
  by (induction v) (simp_all add: add_divide_distrib)

lemma sum_list_all_zero: "\<forall>x\<in>set v. x = 0 \<Longrightarrow> sum_list v = 0" for v :: "real list"
  by (induction v) simp_all

lemma magnitude_normalised:
  assumes "0 < magnitude v"
  shows "magnitude (map (\<lambda>x. x / magnitude v) v) = 1"
proof -
  have "(\<Sum>x\<leftarrow>v. x * x) = magnitude v * magnitude v"
    by (simp add: magnitude_eq sumsq_nonneg)
  then have "(\<Sum>x\<leftarrow>v. (x / magnitude v) * (x / magnitude v)) = 1"
    using assms by (simp add: sumsq_scale)
  then show ?thesis by (simp add: magnitude_eq comp_def)
qed

lemma featureCounts_magnitude: "2 \<le> d \<Longrightarrow> 0 < magnitude (featureCounts t d)"
proof -
  assume "2 \<le> d"
  then have "1 \<le> sum_list (featureCounts t d)" by (simp add: featureCounts_props)
  then have "\<not> (\<forall>x\<in>set (featureCounts t d). x = 0)"
    using sum_list_all_zero [of "featureCounts t d"] by auto
  then have "magnitude (featureCounts t d) \<noteq> 0" by (simp add: magnitude_zero_iff)
  then show ?thesis using magnitude_nonneg [of "featureCounts t d"] by simp
qed

lemma generateSimpleEmbedding_unit: "2 \<le> d \<Longrightarrow> magnitude (generateSimpleEmbedding t d) = 1"
  by (simp add: generateSimpleEmbedding_def Let_def featureCounts_magnitude magnitude_normalised)

lemma featureCounts_empty: "2 \<le> d \<Longrightarrow> featureCounts [] d = (replicate d 0)[d div 2 := 1]"
  by (simp add: featureCounts_def Let_def toLowerCase_def split_ws_def stripWhitespace_def
                bigramFeatures_def wordFeatures_def simpleHash_def bump_def)

lemma magnitude_unit_vector: "k < d \<Longrightarrow> magnitude ((replicate d 0)[k := 1]) = 1"
  by (simp add: magnitude_eq upd_conv_take_nth_drop sum_list_replicate)

lemma generateSimpleEmbedding_empty:
  "2 \<le> d \<Longrightarrow> generateSimpleEmbedding [] d = (replicate d 0)[d div 2 := 1]"
proof -
  assume d: "2 \<le> d"
  then have "magnitude ((replicate d 0)[d div 2 := 1]) = 1"
    by (intro magnitude_unit_vector) simp
  with d show ?thesis
    by (simp add: generateSimpleEmbedding_def Let_def featureCounts_empty)
qed

lemma generateSimpleEmbedding_small: "d < 2 \<Longrightarrow> generateSimpleEmbedding t d = replicate d 0"
proof -
  assume "d < 2"
  then have "d div 2 = 0" by simp
  then have "featureCounts t d = replicate d 0"
    by (simp add: featureCounts_def Let_def bigramFeatures_def wordFeatures_def)
  moreover have "magnitude (replicate d 0) = 0" by (simp add: magnitude_zero_iff)
  ultimately show ?thesis by (simp add: generateSimpleEmbedding_def Let_def)
qed

lemma embed_again:
  "embed t mgr = (mgr', r) \<Longrightarrow>
     embed t mgr' = (mgr', r) \<and> (\<exists>d. embeddingFunction mgr' = Some d \<and> r = Inr (generateSimpleEmbedding t d))"
  by (auto simp: embed_def Let_def initializeEmbeddingFunction_def split: if_splits option.splits)

lemma embed_newManager: "snd (embed t newManager) = Inr (generateSimpleEmbedding t 128)"
  by (simp add: embed_def newManager_def availableModels_def initializeEmbeddingFunction_def Let_def)


text \<open>
  Claim C3, as amended. Embedding the same text twice with the same manager gives the same
  vector and leaves the manager as the first call left it. For every dimension of at least 2
  and every text, the empty text included, the vector has norm 1 (exactly, as the arithmetic
  is exact here). The empty text does not give the zero vector: its one empty word is
  counted in bucket 0 of the word half, so the result is the unit vector at index
  \<open>dimensions div 2\<close>. The zero vector is returned only for a dimension below 2.
\<close>

theorem embed_contract:
  "(embed t mgr = (mgr', r) \<longrightarrow>
      embed t mgr' = (mgr', r) \<and>
      (\<exists>n. embeddingFunction mgr' = Some n \<and> r = Inr (generateSimpleEmbedding t n))) \<and>
   (2 \<le> d \<longrightarrow> magnitude (generateSimpleEmbedding t d) = 1) \<and>
   (2 \<le> d \<longrightarrow> generateSimpleEmbedding [] d = (replicate d 0)[d div 2 := 1]) \<and>
   (d < 2 \<longrightarrow> generateSimpleEmbedding t d = replicate d 0)"
  using embed_again [of t mgr mgr' r]
  by (simp add: generateSimpleEmbedding_unit generateSimpleEmbedding_empty generateSimpleEmbedding_small)

theorem embed_contract_witness:
  "embed ''Hi'' newManager =
     (newManager\<lparr>embeddingFunction := Some 128\<rparr>, Inr (generateSimpleEmbedding ''Hi'' 128)) \<and>
   embed ''Hi'' (newManager\<lparr>embeddingFunction := Some 128\<rparr>) =
     (newManager\<lparr>embeddingFunction := Some 128\<rparr>, Inr (generateSimpleEmbedding ''Hi'' 128)) \<and>
   (2 :: nat) \<le> 128 \<and> magnitude (generateSimpleEmbedding ''Hi'' 128) = 1 \<and>
   generateSimpleEmbedding [] 128 = (replicate 128 0)[64 := 1] \<and>
   (1 :: nat) < 2 \<and> generateSimpleEmbedding ''Hi'' 1 = [0]"
proof -
  have e: "embed ''Hi'' newManager =
     (newManager\<lparr>embeddingFunction := Some 128\<rparr>, Inr (generateSimpleEmbedding ''Hi'' 128))"
    by (simp add: embed_def newManager_def availableModels_def initializeEmbeddingFunction_def Let_def)
  show ?thesis
    using e embed_contract [of "''Hi''" newManager "newManager\<lparr>embeddingFunction := Some 128\<rparr>"
                               "Inr (generateSimpleEmbedding ''Hi'' 128)" 128]
          embed_contract [of "''Hi''" newManager "newManager\<lparr>embeddingFunction := Some 128\<rparr>"
                               "Inr (generateSimpleEmbedding ''Hi'' 128)" 1]
    by simp
qed

theorem embed_empty_text_counterexample:
  "snd (embed [] newManager) \<noteq> Inr (replicate 128 0)"
proof
  assume "snd (embed [] newManager) = Inr (replicate 128 0)"
  then have "(replicate 128 0)[64 := 1] = replicate 128 (0::real)"
    by (simp add: embed_newManager generateSimpleEmbedding_empty)
  then have "(replicate 128 0)[64 := 1] ! 64 = replicate 128 (0::real) ! 64" by simp
  then show False by simp
qed

section \<open>The store: frame lemmas\<close>

lemma initialize_done [simp]: "isInitialized db \<Longrightarrow> initialize db = db"
  by (simp add: initialize_def)

lemma isInitialized_initialize [simp]: "isInitialized (initialize db)"
  by (simp add: initialize_def)

lemma saveToStorage_sessions [simp]: "sessions (saveToStorage now db) = sessions db"
  by (simp add: saveToStorage_def setItem_def)

lemma saveToStorage_messages [simp]: "messages (saveToStorage now db) = messages db"
  by (simp add: saveToStorage_def setItem_def)

lemma saveToStorage_messageEmbeddings [simp]:
  "messageEmbeddings (saveToStorage now db) = messageEmbeddings db"
  by (simp add: saveToStorage_def setItem_def)

lemma saveToStorage_config [simp]: "config (saveToStorage now db) = config db"
  by (simp add: saveToStorage_def setItem_def)

lemma saveToStorage_isInitialized [simp]: "isInitialized (saveToStorage now db) = isInitialized db"
  by (simp add: saveToStorage_def setItem_def)

lemma saveToStorage_fallbackStore [simp]: "fallbackStore (saveToStorage now db) = fallbackStore db"
  by (simp add: saveToStorage_def setItem_def)

lemma saveToStorage_failing [simp]: "failing (asyncStorage db) \<Longrightarrow> saveToStorage now db = db"
  by (simp add: saveToStorage_def setItem_def)

lemma sessionMessagesOf_saveToStorage [simp]:
  "sessionMessagesOf k (saveToStorage now db) = sessionMessagesOf k db"
  by (simp add: sessionMessagesOf_def)

lemma initialize_failing:
  "failing (asyncStorage db) \<Longrightarrow> initialize db = (if isInitialized db then db else db\<lparr>isInitialized := True\<rparr>)"
  by (simp add: initialize_def loadFromStorage_def getItem_def)

section \<open>Lookup of a session\<close>

text \<open>
  Claim C10. For an id that the primary session map does not hold when \<open>getSession\<close> looks
  it up (that is, after the operation's own \<open>initialize\<close>), \<open>getSession\<close> returns what the
  fallback store returns for that id, although nothing was thrown; so a session held only by
  the fallback store is returned.
\<close>

theorem getSession_asks_fallback:
  assumes "map_of (sessions (initialize db)) ident = None"
  shows "snd (getSession ident db) = fb_getSession ident (fallbackStore (initialize db)) \<and>
         fallbackStore (initialize db) = fallbackStore db \<and>
         (map_of (fb_sessions (fallbackStore db)) ident = Some s \<longrightarrow> snd (getSession ident db) = Some s)"
proof -
  have f: "fallbackStore (initialize db) = fallbackStore db"
    by (simp add: initialize_def loadFromStorage_def split: sum.splits option.splits)
  from assms have "snd (getSession ident db) = fb_getSession ident (fallbackStore (initialize db))"
    by (simp add: getSession_def Let_def)
  with f show ?thesis by (simp add: fb_getSession_def)
qed

theorem getSession_asks_fallback_witness:
  "map_of (sessions (initialize fallbackOnlyStore)) ''session_7_x'' = None \<and>
   map_of (fb_sessions (fallbackStore fallbackOnlyStore)) ''session_7_x'' = Some fallbackOnlySession \<and>
   snd (getSession ''session_7_x'' fallbackOnlyStore) = Some fallbackOnlySession"
proof -
  have n: "map_of (sessions (initialize fallbackOnlyStore)) ''session_7_x'' = None"
    by (simp add: fallbackOnlyStore_def emptyStore_def newStore_def)
  have f: "map_of (fb_sessions (fallbackStore fallbackOnlyStore)) ''session_7_x'' = Some fallbackOnlySession"
    by (simp add: fallbackOnlyStore_def emptyStore_def newStore_def)
  from getSession_asks_fallback [OF n, of fallbackOnlySession] f
  have "snd (getSession ''session_7_x'' fallbackOnlyStore) = Some fallbackOnlySession" by blast
  with n f show ?thesis by blast
qed

section \<open>Adding a message\<close>

lemma isDuplicate_iff:
  "isDuplicate m msgs \<longleftrightarrow>
     (\<exists>e\<in>set msgs. m_content e = m_content m \<and> m_role e = m_role m \<and>
                     \<bar>m_timestamp e - m_timestamp m\<bar> < 1000)"
  by (simp add: isDuplicate_def list_ex_iff)

lemma isDuplicate_newMessage:
  "isDuplicate (newMessage now rnd d) msgs \<longleftrightarrow>
     (\<exists>e\<in>set msgs. m_content e = d_content d \<and> m_role e = d_role d \<and>
                     \<bar>m_timestamp e - now\<bar> < 1000)"
  by (simp add: isDuplicate_iff newMessage_def)

lemma newMessage_fields:
  "m_id (newMessage now rnd d) = ''msg_'' @ substrLast 6 (d_sessionId d) @ ''_'' @ showInt now @ ''_'' @ rnd"
  "m_sessionId (newMessage now rnd d) = d_sessionId d"
  "m_role (newMessage now rnd d) = d_role d"
  "m_content (newMessage now rnd d) = d_content d"
  "m_timestamp (newMessage now rnd d) = now"
  by (simp_all add: newMessage_def)

lemma attachEmbedding_message:
  "attachEmbedding embedText message db = (message1, db1) \<Longrightarrow>
     m_id message1 = m_id message \<and> m_sessionId message1 = m_sessionId message \<and>
     m_role message1 = m_role message \<and> m_content message1 = m_content message \<and>
     m_timestamp message1 = m_timestamp message"
  by (auto simp: attachEmbedding_def split: sum.splits)

lemma attachEmbedding_store:
  "attachEmbedding embedText message db = (message1, db1) \<Longrightarrow>
     sessions db1 = sessions db \<and> messages db1 = messages db \<and> config db1 = config db \<and>
     isInitialized db1 = isInitialized db \<and> fallbackStore db1 = fallbackStore db \<and>
     asyncStorage db1 = asyncStorage db"
  by (auto simp: attachEmbedding_def split: sum.splits)

lemma storeMessage_messages:
  "messages (storeMessage now msgs message db) =
     AList.update (m_sessionId message) (msgs @ [message]) (messages db)"
  by (simp add: storeMessage_def Let_def split: option.splits)

lemma storeMessage_frame:
  "messageEmbeddings (storeMessage now msgs message db) = messageEmbeddings db"
  "config (storeMessage now msgs message db) = config db"
  "isInitialized (storeMessage now msgs message db) = isInitialized db"
  "fallbackStore (storeMessage now msgs message db) = fallbackStore db"
  "asyncStorage (storeMessage now msgs message db) = asyncStorage db"
  by (simp_all add: storeMessage_def Let_def split: option.splits)

lemma storeMessage_sessions:
  "sessions (storeMessage now msgs message db) =
     (case map_of (sessions db) (m_sessionId message) of
        Some session \<Rightarrow>
          AList.update (m_sessionId message)
            (session\<lparr>s_messageCount := Suc (length msgs), s_updatedAt := now,
                     s_preview := truncateContent (m_content message) 100\<rparr>) (sessions db)
      | None \<Rightarrow> sessions db)"
  by (simp add: storeMessage_def Let_def split: option.splits)

lemma sessionMessagesOf_storeMessage:
  "sessionMessagesOf k (storeMessage now msgs message db) =
     (if k = m_sessionId message then msgs @ [message] else sessionMessagesOf k db)"
  by (simp add: sessionMessagesOf_def storeMessage_messages update_conv')

lemma sessionMessagesOf_cong:
  "messages db = messages db' \<Longrightarrow> sessionMessagesOf k db = sessionMessagesOf k db'"
  by (simp add: sessionMessagesOf_def)

text \<open>The two paths of \<open>addMessage\<close> on an initialised store.\<close>

lemma addMessage_duplicate:
  assumes "isInitialized db"
    and "\<exists>e\<in>set (sessionMessagesOf (d_sessionId d) db).
            m_content e = d_content d \<and> m_role e = d_role d \<and> \<bar>m_timestamp e - now\<bar> < 1000"
  shows "addMessage embedText now rnd d db = (db, last (sessionMessagesOf (d_sessionId d) db))"
proof -
  from assms(2) have "isDuplicate (newMessage now rnd d) (sessionMessagesOf (d_sessionId d) db)"
    using isDuplicate_newMessage [of now rnd d "sessionMessagesOf (d_sessionId d) db"] by blast
  with assms(1) show ?thesis by (simp add: addMessage_def Let_def)
qed

lemma addMessage_insert:
  assumes "isInitialized db"
    and "\<not> (\<exists>e\<in>set (sessionMessagesOf (d_sessionId d) db).
            m_content e = d_content d \<and> m_role e = d_role d \<and> \<bar>m_timestamp e - now\<bar> < 1000)"
    and "addMessage embedText now rnd d db = (db', m)"
  shows "sessionMessagesOf (d_sessionId d) db' = sessionMessagesOf (d_sessionId d) db @ [m] \<and>
         m_id m = ''msg_'' @ substrLast 6 (d_sessionId d) @ ''_'' @ showInt now @ ''_'' @ rnd \<and>
         m_sessionId m = d_sessionId d \<and> m_role m = d_role d \<and> m_content m = d_content d \<and>
         m_timestamp m = now \<and> isInitialized db'"
proof -
  from assms(2) have nd: "\<not> isDuplicate (newMessage now rnd d) (sessionMessagesOf (d_sessionId d) db)"
    using isDuplicate_newMessage [of now rnd d "sessionMessagesOf (d_sessionId d) db"] by blast
  obtain message1 db1 where a: "attachEmbedding embedText (newMessage now rnd d) db = (message1, db1)"
    by (cases "attachEmbedding embedText (newMessage now rnd d) db") blast
  from assms(1) assms(3) nd a
  have r: "db' = saveToStorage now (storeMessage now (sessionMessagesOf (d_sessionId d) db) message1 db1)"
          "m = message1"
    by (auto simp: addMessage_def Let_def)
  note am = attachEmbedding_message [OF a]
  note as = attachEmbedding_store [OF a]
  have sid: "m_sessionId message1 = d_sessionId d" using am by (simp add: newMessage_fields)
  have "sessionMessagesOf (d_sessionId d) db' = sessionMessagesOf (d_sessionId d) db @ [m]"
    using r sid by (simp add: sessionMessagesOf_storeMessage)
  moreover have "isInitialized db'" using r as assms(1) by (simp add: storeMessage_frame)
  ultimately show ?thesis using r am by (simp add: newMessage_fields)
qed

lemma addMessage_paths:
  assumes "isInitialized db" and "addMessage embedText now rnd d db = (db', m)"
  shows "(db' = db \<and> sessionMessagesOf (d_sessionId d) db \<noteq> [] \<and>
          m = last (sessionMessagesOf (d_sessionId d) db) \<and>
          (\<exists>e\<in>set (sessionMessagesOf (d_sessionId d) db).
              m_content e = d_content d \<and> m_role e = d_role d \<and> \<bar>m_timestamp e - now\<bar> < 1000))
         \<or>
         (sessionMessagesOf (d_sessionId d) db' = sessionMessagesOf (d_sessionId d) db @ [m] \<and>
          m_id m = ''msg_'' @ substrLast 6 (d_sessionId d) @ ''_'' @ showInt now @ ''_'' @ rnd \<and>
          m_sessionId m = d_sessionId d \<and> m_role m = d_role d \<and> m_content m = d_content d \<and>
          m_timestamp m = now \<and> isInitialized db' \<and>
          \<not> (\<exists>e\<in>set (sessionMessagesOf (d_sessionId d) db).
              m_content e = d_content d \<and> m_role e = d_role d \<and> \<bar>m_timestamp e - now\<bar> < 1000))"
proof (cases "\<exists>e\<in>set (sessionMessagesOf (d_sessionId d) db).
              m_content e = d_content d \<and> m_role e = d_role d \<and> \<bar>m_timestamp e - now\<bar> < 1000")
  case True
  then have ne: "sessionMessagesOf (d_sessionId d) db \<noteq> []" by auto
  from addMessage_duplicate [OF assms(1) True, of embedText rnd] assms(2)
  have "db' = db" "m = last (sessionMessagesOf (d_sessionId d) db)" by simp_all
  with True ne show ?thesis by blast
next
  case False
  with addMessage_insert [OF assms(1) False assms(2)] show ?thesis by blast
qed

section \<open>The example conversation, evaluated\<close>

lemma chatStore0_eq:
  "chatStore0 =
     \<lparr>sessions = [(''session_0_r'', \<lparr>s_id = ''session_0_r'', s_title =
     ''New Chat'', s_preview = [], s_createdAt = 0, s_updatedAt = 0, s_messageCount =
     0\<rparr>)], messages = [(''session_0_r'', [])], messageEmbeddings = [], config =
     \<lparr>maxMessagesPerSession = 100, embeddingDimensions = 128, similarityThreshold = 3
     / 10, maxStorageMB = 25, cleanupPolicy = \<lparr>maxAge = 30, maxSessions =
     50\<rparr>\<rparr>, isInitialized = True, fallbackStore = \<lparr>fb_sessions = [],
     fb_messages = [], fb_messageCounter = 0\<rparr>, asyncStorage = \<lparr>item = Some
     \<lparr>p_sessions = [(''session_0_r'', \<lparr>s_id = ''session_0_r'', s_title =
     ''New Chat'', s_preview = [], s_createdAt = 0, s_updatedAt = 0, s_messageCount =
     0\<rparr>)], p_messages = [(''session_0_r'', [])], p_embeddings = [], p_timestamp =
     0\<rparr>, failing = False\<rparr>\<rparr>"
  by code_simp

lemma chatStore1_eq:
  "chatStore1 =
     \<lparr>sessions = [(''session_0_r'', \<lparr>s_id = ''session_0_r'', s_title =
     ''New Chat'', s_preview = ''Hi'', s_createdAt = 0, s_updatedAt = 1000, s_messageCount =
     1\<rparr>)], messages = [(''session_0_r'', [\<lparr>m_id = ''msg_on_0_r_1000_a'',
     m_sessionId = ''session_0_r'', m_role = User, m_content = ''Hi'', m_timestamp = 1000,
     m_embedding = Some [1, 0]\<rparr>])], messageEmbeddings = [(''msg_on_0_r_1000_a'', [1,
     0])], config = \<lparr>maxMessagesPerSession = 100, embeddingDimensions = 128,
     similarityThreshold = 3 / 10, maxStorageMB = 25, cleanupPolicy = \<lparr>maxAge = 30,
     maxSessions = 50\<rparr>\<rparr>, isInitialized = True, fallbackStore =
     \<lparr>fb_sessions = [], fb_messages = [], fb_messageCounter = 0\<rparr>, asyncStorage
     = \<lparr>item = Some \<lparr>p_sessions = [(''session_0_r'', \<lparr>s_id =
     ''session_0_r'', s_title = ''New Chat'', s_preview = ''Hi'', s_createdAt = 0,
     s_updatedAt = 1000, s_messageCount = 1\<rparr>)], p_messages = [(''session_0_r'',
     [\<lparr>m_id = ''msg_on_0_r_1000_a'', m_sessionId = ''session_0_r'', m_role = User,
     m_content = ''Hi'', m_timestamp = 1000, m_embedding = Some [1, 0]\<rparr>])],
     p_embeddings = [(''msg_on_0_r_1000_a'', [1, 0])], p_timestamp = 1000\<rparr>, failing =
     False\<rparr>\<rparr>"
  unfolding chatStore1_def chatStore0_eq by code_simp

lemma chatStore2_eq: "chatStore2 = chatStore1"
  unfolding chatStore2_def chatStore1_eq by code_simp

lemma chatStore3_eq:
  "chatStore3 =
     \<lparr>sessions = [(''session_0_r'', \<lparr>s_id = ''session_0_r'', s_title =
     ''New Chat'', s_preview = ''Hi'', s_createdAt = 0, s_updatedAt = 2800, s_messageCount =
     2\<rparr>)], messages = [(''session_0_r'', [\<lparr>m_id = ''msg_on_0_r_1000_a'',
     m_sessionId = ''session_0_r'', m_role = User, m_content = ''Hi'', m_timestamp = 1000,
     m_embedding = Some [1, 0]\<rparr>, \<lparr>m_id = ''msg_on_0_r_2800_c'', m_sessionId =
     ''session_0_r'', m_role = User, m_content = ''Hi'', m_timestamp = 2800, m_embedding =
     Some [1, 0]\<rparr>])], messageEmbeddings = [(''msg_on_0_r_1000_a'', [1, 0]),
     (''msg_on_0_r_2800_c'', [1, 0])], config = \<lparr>maxMessagesPerSession = 100,
     embeddingDimensions = 128, similarityThreshold = 3 / 10, maxStorageMB = 25,
     cleanupPolicy = \<lparr>maxAge = 30, maxSessions = 50\<rparr>\<rparr>, isInitialized =
     True, fallbackStore = \<lparr>fb_sessions = [], fb_messages = [], fb_messageCounter =
     0\<rparr>, asyncStorage = \<lparr>item = Some \<lparr>p_sessions = [(''session_0_r'',
     \<lparr>s_id = ''session_0_r'', s_title = ''New Chat'', s_preview = ''Hi'', s_createdAt
     = 0, s_updatedAt = 2800, s_messageCount = 2\<rparr>)], p_messages = [(''session_0_r'',
     [\<lparr>m_id = ''msg_on_0_r_1000_a'', m_sessionId = ''session_0_r'', m_role = User,
     m_content = ''Hi'', m_timestamp = 1000, m_embedding = Some [1, 0]\<rparr>, \<lparr>m_id
     = ''msg_on_0_r_2800_c'', m_sessionId = ''session_0_r'', m_role = User, m_content =
     ''Hi'', m_timestamp = 2800, m_embedding = Some [1, 0]\<rparr>])], p_embeddings =
     [(''msg_on_0_r_1000_a'', [1, 0]), (''msg_on_0_r_2800_c'', [1, 0])], p_timestamp =
     2800\<rparr>, failing = False\<rparr>\<rparr>"
  unfolding chatStore3_def chatStore2_eq chatStore1_eq by code_simp


text \<open>
  Claim C2, as amended. When the first of two calls with the same session, role and content
  stored its message (it was not itself answered from an earlier message) and the second call
  comes within 1000 ms of the first, the second call returns the first call's message, the
  same id, and changes nothing in the store, so the session's \<open>messageCount\<close> stays.
\<close>

theorem addMessage_dedup:
  assumes "isInitialized db"
    and "addMessage embedText t1 rnd1 d db = (db1, m1)"
    and "sessionMessagesOf (d_sessionId d) db1 = sessionMessagesOf (d_sessionId d) db @ [m1]"
    and "\<bar>t2 - t1\<bar> < 1000"
    and "addMessage embedText' t2 rnd2 d db1 = (db2, m2)"
  shows "m_id m2 = m_id m1 \<and> m2 = m1 \<and> db2 = db1 \<and>
         map_of (sessions db2) (d_sessionId d) = map_of (sessions db1) (d_sessionId d)"
proof -
  from addMessage_paths [OF assms(1) assms(2)] assms(3)
  have first: "m_role m1 = d_role d" "m_content m1 = d_content d" "m_timestamp m1 = t1"
    "isInitialized db1"
    by auto
  have m1_in: "m1 \<in> set (sessionMessagesOf (d_sessionId d) db1)"
    using assms(3) by simp
  have "\<bar>m_timestamp m1 - t2\<bar> < 1000" using first(3) assms(4) by simp
  with first m1_in
  have dup: "\<exists>e\<in>set (sessionMessagesOf (d_sessionId d) db1).
               m_content e = d_content d \<and> m_role e = d_role d \<and> \<bar>m_timestamp e - t2\<bar> < 1000"
    by blast
  from addMessage_paths [OF first(4) assms(5)] dup
  have "db2 = db1 \<and> m2 = last (sessionMessagesOf (d_sessionId d) db1)"
    by blast
  with assms(3) show ?thesis by simp
qed

theorem addMessage_dedup_witness:
  "isInitialized chatStore0 \<and>
   addMessage unitEmbedder 1000 ''a'' greeting chatStore0 =
     (chatStore1, snd (addMessage unitEmbedder 1000 ''a'' greeting chatStore0)) \<and>
   sessionMessagesOf (d_sessionId greeting) chatStore1 =
     sessionMessagesOf (d_sessionId greeting) chatStore0 @ [snd (addMessage unitEmbedder 1000 ''a'' greeting chatStore0)] \<and>
   \<bar>1900 - 1000 :: int\<bar> < 1000 \<and>
   addMessage unitEmbedder 1900 ''b'' greeting chatStore1 =
     (chatStore2, snd (addMessage unitEmbedder 1900 ''b'' greeting chatStore1)) \<and>
   m_id (snd (addMessage unitEmbedder 1900 ''b'' greeting chatStore1)) =
     m_id (snd (addMessage unitEmbedder 1000 ''a'' greeting chatStore0)) \<and>
   chatStore2 = chatStore1 \<and>
   map_option s_messageCount (map_of (sessions chatStore2) ''session_0_r'') = Some 1"
proof -
  have i: "isInitialized chatStore0" by (simp add: chatStore0_eq)
  have a: "addMessage unitEmbedder 1000 ''a'' greeting chatStore0 =
     (chatStore1, snd (addMessage unitEmbedder 1000 ''a'' greeting chatStore0))"
    by (simp add: chatStore1_def)
  have s: "sessionMessagesOf (d_sessionId greeting) chatStore1 =
     sessionMessagesOf (d_sessionId greeting) chatStore0 @ [snd (addMessage unitEmbedder 1000 ''a'' greeting chatStore0)]"
    unfolding chatStore1_eq chatStore0_eq by code_simp
  have t: "\<bar>1900 - 1000 :: int\<bar> < 1000" by simp
  have b: "addMessage unitEmbedder 1900 ''b'' greeting chatStore1 =
     (chatStore2, snd (addMessage unitEmbedder 1900 ''b'' greeting chatStore1))"
    by (simp add: chatStore2_def)
  have c: "map_option s_messageCount (map_of (sessions chatStore1) ''session_0_r'') = Some 1"
    by (simp add: chatStore1_eq)
  from addMessage_dedup [OF i a s t b]
  have r: "m_id (snd (addMessage unitEmbedder 1900 ''b'' greeting chatStore1)) =
             m_id (snd (addMessage unitEmbedder 1000 ''a'' greeting chatStore0))"
          "chatStore2 = chatStore1"
    by blast+
  from c r(2) have c2: "map_option s_messageCount (map_of (sessions chatStore2) ''session_0_r'') = Some 1"
    by simp
  from i a s t b r c2 show ?thesis by blast
qed

text \<open>
  The claim as stated fails when the first call was itself answered from an earlier message:
  the window is measured from the stored message's timestamp (1000), not from the previous
  call. The calls at 1900 and 2800 are 900 ms apart, carry the same data and address an
  existing session, yet the second one stores a new message.
\<close>

theorem addMessage_dedup_counterexample:
  "isInitialized chatStore1 \<and>
   map_of (sessions chatStore1) (d_sessionId greeting) \<noteq> None \<and>
   \<bar>2800 - 1900 :: int\<bar> < 1000 \<and>
   m_id (snd (addMessage unitEmbedder 1900 ''b'' greeting chatStore1)) = ''msg_on_0_r_1000_a'' \<and>
   m_id (snd (addMessage unitEmbedder 2800 ''c'' greeting chatStore2)) = ''msg_on_0_r_2800_c'' \<and>
   map_option s_messageCount (map_of (sessions chatStore2) ''session_0_r'') = Some 1 \<and>
   map_option s_messageCount (map_of (sessions chatStore3) ''session_0_r'') = Some 2"
  unfolding chatStore3_eq chatStore2_eq chatStore1_eq by code_simp

section \<open>A failing device\<close>

lemma getMessages_all:
  "isInitialized db \<Longrightarrow> getMessages k None db = (db, sessionMessagesOf k db)"
  by (simp add: getMessages_def)

lemma addMessage_failing_device:
  assumes "failing (asyncStorage db)"
    and "isInitialized db"
    and "addMessage embedText now rnd d db = (db', m)"
  shows "m \<in> set (snd (getMessages (d_sessionId d) None db')) \<and>
         asyncStorage db' = asyncStorage db \<and>
         (\<not> (\<exists>e\<in>set (sessionMessagesOf (d_sessionId d) db).
               m_content e = d_content d \<and> m_role e = d_role d \<and> \<bar>m_timestamp e - now\<bar> < 1000) \<longrightarrow>
            snd (getMessages (d_sessionId d) None db') = sessionMessagesOf (d_sessionId d) db @ [m] \<and>
            m_sessionId m = d_sessionId d \<and> m_role m = d_role d \<and> m_content m = d_content d \<and>
            m_timestamp m = now)"
proof (cases "\<exists>e\<in>set (sessionMessagesOf (d_sessionId d) db).
               m_content e = d_content d \<and> m_role e = d_role d \<and> \<bar>m_timestamp e - now\<bar> < 1000")
  case True
  then have ne: "sessionMessagesOf (d_sessionId d) db \<noteq> []" by auto
  from addMessage_duplicate [OF assms(2) True, of embedText rnd] assms(3)
  have r: "db' = db" "m = last (sessionMessagesOf (d_sessionId d) db)" by simp_all
  with True ne assms(2) show ?thesis by (simp add: getMessages_all)
next
  case False
  note ins = addMessage_insert [OF assms(2) False assms(3)]
  obtain message1 db1 where a: "attachEmbedding embedText (newMessage now rnd d) db = (message1, db1)"
    by (cases "attachEmbedding embedText (newMessage now rnd d) db") blast
  from False have nd: "\<not> isDuplicate (newMessage now rnd d) (sessionMessagesOf (d_sessionId d) db)"
    using isDuplicate_newMessage [of now rnd d "sessionMessagesOf (d_sessionId d) db"] by blast
  from assms(2) assms(3) nd a
  have r: "db' = saveToStorage now (storeMessage now (sessionMessagesOf (d_sessionId d) db) message1 db1)"
    by (auto simp: addMessage_def Let_def)
  have "asyncStorage db1 = asyncStorage db" using attachEmbedding_store [OF a] by simp
  then have dev: "asyncStorage db' = asyncStorage db"
    using r assms(1) by (simp add: storeMessage_frame)
  from ins have "snd (getMessages (d_sessionId d) None db') = sessionMessagesOf (d_sessionId d) db @ [m]"
    by (simp add: getMessages_all)
  with ins dev False show ?thesis by simp
qed

text \<open>
  Claim C8. On a device whose writes throw, \<open>addMessage\<close> still returns a message and the
  next \<open>getMessages\<close> of that session contains it. When no duplicate was found (the case in
  which a write is attempted) the returned message is the new one, it is the last of the
  session's list, and nothing reached the device: the store in memory was changed before
  the write, and \<open>saveToStorage\<close> swallowed the exception.
\<close>

theorem addMessage_survives_failed_write:
  assumes "failing (asyncStorage db)"
    and "addMessage embedText now rnd d db = (db', m)"
  shows "m \<in> set (snd (getMessages (d_sessionId d) None db')) \<and>
         asyncStorage db' = asyncStorage db \<and>
         (\<not> (\<exists>e\<in>set (sessionMessagesOf (d_sessionId d) db).
               m_content e = d_content d \<and> m_role e = d_role d \<and> \<bar>m_timestamp e - now\<bar> < 1000) \<longrightarrow>
            snd (getMessages (d_sessionId d) None db') = sessionMessagesOf (d_sessionId d) db @ [m] \<and>
            m_sessionId m = d_sessionId d \<and> m_role m = d_role d \<and> m_content m = d_content d \<and>
            m_timestamp m = now)"
proof -
  define db0 where "db0 = initialize db"
  have i: "isInitialized db0" by (simp add: db0_def)
  have same: "asyncStorage db0 = asyncStorage db" "sessionMessagesOf (d_sessionId d) db0 = sessionMessagesOf (d_sessionId d) db"
    using assms(1) by (simp_all add: db0_def initialize_failing sessionMessagesOf_def)
  from assms(1) same have f: "failing (asyncStorage db0)" by simp
  have "addMessage embedText now rnd d db0 = addMessage embedText now rnd d db"
    by (simp add: addMessage_def db0_def)
  with assms(2) have a: "addMessage embedText now rnd d db0 = (db', m)" by simp
  from addMessage_failing_device [OF f i a] same show ?thesis by simp
qed

theorem addMessage_survives_failed_write_witness:
  "failing (asyncStorage offlineStore) \<and> isInitialized offlineStore \<and>
   addMessage unitEmbedder 1000 ''a'' greeting offlineStore =
     (fst (addMessage unitEmbedder 1000 ''a'' greeting offlineStore),
      snd (addMessage unitEmbedder 1000 ''a'' greeting offlineStore)) \<and>
   \<not> (\<exists>e\<in>set (sessionMessagesOf (d_sessionId greeting) offlineStore).
         m_content e = d_content greeting \<and> m_role e = d_role greeting \<and> \<bar>m_timestamp e - 1000\<bar> < 1000) \<and>
   snd (getMessages (d_sessionId greeting) None (fst (addMessage unitEmbedder 1000 ''a'' greeting offlineStore))) =
     [snd (addMessage unitEmbedder 1000 ''a'' greeting offlineStore)] \<and>
   m_content (snd (addMessage unitEmbedder 1000 ''a'' greeting offlineStore)) = ''Hi'' \<and>
   asyncStorage (fst (addMessage unitEmbedder 1000 ''a'' greeting offlineStore)) = failingDevice"
proof -
  have f: "failing (asyncStorage offlineStore)"
    by (simp add: offlineStore_def failingDevice_def)
  have i: "isInitialized offlineStore"
    by (simp add: offlineStore_def)
  have a: "addMessage unitEmbedder 1000 ''a'' greeting offlineStore =
     (fst (addMessage unitEmbedder 1000 ''a'' greeting offlineStore),
      snd (addMessage unitEmbedder 1000 ''a'' greeting offlineStore))"
    by simp
  have e: "sessionMessagesOf (d_sessionId greeting) offlineStore = []"
    by (simp add: offlineStore_def sessionMessagesOf_def greeting_def)
  have c: "d_content greeting = ''Hi''" by (simp add: greeting_def)
  have s: "asyncStorage offlineStore = failingDevice" by (simp add: offlineStore_def)
  from addMessage_survives_failed_write [OF f a] e c s f i a show ?thesis by simp
qed

section \<open>Deleting a session\<close>

lemma deleteSession_sessions:
  "isInitialized db \<Longrightarrow> sessions (deleteSession now k db) = AList.delete k (sessions db)"
  by (simp add: deleteSession_def Let_def)

lemma deleteSession_messages:
  "isInitialized db \<Longrightarrow> messages (deleteSession now k db) = AList.delete k (messages db)"
  by (simp add: deleteSession_def Let_def)

lemma deleteSession_messageEmbeddings:
  "isInitialized db \<Longrightarrow>
     messageEmbeddings (deleteSession now k db) =
       filter (\<lambda>(msgId, e). \<not> startsWith msgId k) (messageEmbeddings db)"
  by (simp add: deleteSession_def Let_def)

lemma deleteSession_fallbackStore:
  "isInitialized db \<Longrightarrow> fallbackStore (deleteSession now k db) = fb_deleteSession k (fallbackStore db)"
  by (simp add: deleteSession_def Let_def)

lemma deleteSession_frame:
  "isInitialized (deleteSession now k db)"
  "config (deleteSession now k db) = config (initialize db)"
  by (simp_all add: deleteSession_def Let_def)

text \<open>
  The session and its messages are gone after \<open>deleteSession\<close>, in the primary store and
  in the fallback store.
\<close>

lemma deleteSession_removes_session:
  "isInitialized db \<Longrightarrow>
     snd (getSession k (deleteSession now k db)) = None \<and>
     snd (getMessages k None (deleteSession now k db)) = []"
  by (simp add: getSession_def getMessages_def Let_def deleteSession_frame deleteSession_sessions
        deleteSession_messages deleteSession_fallbackStore sessionMessagesOf_def
        fb_getSession_def fb_deleteSession_def delete_conv')

text \<open>
  An identifier made by \<open>addMessage\<close> starts with \<open>msg_\<close> and one made by \<open>createSession\<close>
  with \<open>session_\<close>, so the filter \<open>msgId.startsWith(id)\<close> of \<open>deleteSession\<close> never selects
  the embedding of a message that \<open>addMessage\<close> stored.
\<close>

lemma message_id_never_starts_with_session_id:
  "\<not> startsWith (m_id (newMessage now rnd d)) (s_id (snd (createSession now' rnd' title db)))"
  by (simp add: startsWith_def newMessage_def createSession_def Let_def)

text \<open>
  Claim C1 at the example conversation: after the session with one embedded message is
  deleted, the session and its message list are gone, but the embedding index still holds
  the vector under the message's id.
\<close>

theorem deleteSession_leaves_embedding:
  "map_of (sessions chatStore1) ''session_0_r'' \<noteq> None \<and>
   map m_id (snd (getMessages ''session_0_r'' None chatStore1)) = [''msg_on_0_r_1000_a''] \<and>
   snd (getSession ''session_0_r'' (deleteSession 2000 ''session_0_r'' chatStore1)) = None \<and>
   snd (getMessages ''session_0_r'' None (deleteSession 2000 ''session_0_r'' chatStore1)) = [] \<and>
   map_of (messageEmbeddings (deleteSession 2000 ''session_0_r'' chatStore1)) ''msg_on_0_r_1000_a''
     = Some [1, 0]"
  unfolding chatStore1_eq by code_simp

section \<open>Similarity search\<close>

lemma scanMessages_result:
  assumes "r \<in> set (scanMessages q db msgs)"
  shows "r_similarity r \<ge> similarityThreshold (config db) \<and> r_message r \<in> set msgs"
  using assms by (auto simp: scanMessages_def Let_def split: option.splits if_splits)

lemma scanStore_result:
  assumes "r \<in> set (scanStore q sessionId db)"
  shows "r_similarity r \<ge> similarityThreshold (config db) \<and>
         (\<exists>(sid, msgs)\<in>set (messages db). inScope sessionId sid \<and> r_message r \<in> set msgs)"
proof -
  from assms obtain sid msgs where e: "(sid, msgs) \<in> set (messages db)" "inScope sessionId sid"
      "r \<in> set (scanMessages q db msgs)"
    by (auto simp: scanStore_def split: if_splits)
  with scanMessages_result [OF e(3)] show ?thesis by blast
qed

lemma scanStore_in_session:
  assumes "distinct (map fst (messages db))" and "s \<noteq> []"
    and "r \<in> set (scanStore q (Some s) db)"
  shows "r_message r \<in> set (sessionMessagesOf s db)"
proof -
  from scanStore_result [OF assms(3)] obtain sid msgs
    where e: "(sid, msgs) \<in> set (messages db)" "inScope (Some s) sid" "r_message r \<in> set msgs"
    by blast
  from e(2) assms(2) have "sid = s" by (simp add: inScope_def)
  with e(1) assms(1) have "map_of (messages db) s = Some msgs" by simp
  with e(3) show ?thesis by (simp add: sessionMessagesOf_def)
qed

lemma ranking_sorted:
  "sorted_wrt (\<lambda>a b. r_similarity a \<ge> r_similarity b) (take n (sort_key (\<lambda>r. - r_similarity r) xs))"
proof -
  have "sorted (map (\<lambda>r. - r_similarity r) (sort_key (\<lambda>r. - r_similarity r) xs))"
    by (rule sorted_sort_key)
  then have "sorted_wrt (\<lambda>a b. r_similarity a \<ge> r_similarity b) (sort_key (\<lambda>r. - r_similarity r) xs)"
    by (simp add: sorted_map)
  then show ?thesis by (rule sorted_wrt_take)
qed

lemma ranking_stable:
  "prefix (filter (\<lambda>r. r_similarity r = v) (take n (sort_key (\<lambda>r. - r_similarity r) xs)))
          (filter (\<lambda>r. r_similarity r = v) xs)"
proof -
  have "filter (\<lambda>r. - r_similarity r = - v) (sort_key (\<lambda>r. - r_similarity r) xs)
        = filter (\<lambda>r. - r_similarity r = - v) xs"
    by (rule sort_key_stable)
  then have "filter (\<lambda>r. r_similarity r = v) (sort_key (\<lambda>r. - r_similarity r) xs)
             = filter (\<lambda>r. r_similarity r = v) xs"
    by simp
  moreover have "prefix (filter (\<lambda>r. r_similarity r = v) (take n (sort_key (\<lambda>r. - r_similarity r) xs)))
                        (filter (\<lambda>r. r_similarity r = v) (sort_key (\<lambda>r. - r_similarity r) xs))"
    by (intro filter_mono_prefix take_is_prefix)
  ultimately show ?thesis by simp
qed

lemma searchSimilarMessages_cases:
  assumes "isInitialized db"
  shows "(\<exists>q. (case query of QueryText text \<Rightarrow> embedText text | QueryVector v \<Rightarrow> Inr v) = Inr q \<and>
              snd (searchSimilarMessages embedText query sessionId limit db) =
                take limit (sort_key (\<lambda>r. - r_similarity r) (scanStore q sessionId db)))
         \<or> ((\<exists>err. (case query of QueryText text \<Rightarrow> embedText text | QueryVector v \<Rightarrow> Inr v) = Inl err) \<and>
             snd (searchSimilarMessages embedText query sessionId limit db) = [])"
  using assms
  by (cases "case query of QueryText text \<Rightarrow> embedText text | QueryVector v \<Rightarrow> Inr v")
     (simp_all add: searchSimilarMessages_def fb_searchSimilarMessages_def)

text \<open>
  Claim C4, as amended. Every result has a similarity of at least the configured threshold;
  the list is sorted by non-increasing similarity; results of equal similarity keep the order
  in which the scan met them (sessions in insertion order, messages in list order); the list
  is no longer than \<open>limit\<close>; and when a non-empty \<open>sessionId\<close> is given, every returned
  message is in that session's list. An empty string as \<open>sessionId\<close> is no filter.
\<close>

theorem searchSimilarMessages_contract:
  assumes "isInitialized db" and "mapsDistinct db"
  shows "(\<forall>r\<in>set (snd (searchSimilarMessages embedText query sessionId limit db)).
            r_similarity r \<ge> similarityThreshold (config db)) \<and>
         sorted_wrt (\<lambda>a b. r_similarity a \<ge> r_similarity b)
            (snd (searchSimilarMessages embedText query sessionId limit db)) \<and>
         (\<forall>q v. (case query of QueryText text \<Rightarrow> embedText text | QueryVector w \<Rightarrow> Inr w) = Inr q \<longrightarrow>
            prefix (filter (\<lambda>r. r_similarity r = v)
                      (snd (searchSimilarMessages embedText query sessionId limit db)))
                   (filter (\<lambda>r. r_similarity r = v) (scanStore q sessionId db))) \<and>
         length (snd (searchSimilarMessages embedText query sessionId limit db)) \<le> limit \<and>
         (\<forall>s. sessionId = Some s \<and> s \<noteq> [] \<longrightarrow>
            (\<forall>r\<in>set (snd (searchSimilarMessages embedText query sessionId limit db)).
               r_message r \<in> set (snd (getMessages s None db))))"
proof -
  let ?res = "snd (searchSimilarMessages embedText query sessionId limit db)"
  let ?q = "case query of QueryText text \<Rightarrow> embedText text | QueryVector w \<Rightarrow> Inr w"
  from searchSimilarMessages_cases [OF assms(1), where query = query and embedText = embedText
         and sessionId = sessionId and limit = limit]
  consider (ranked) q where "?q = Inr q"
      "?res = take limit (sort_key (\<lambda>r. - r_similarity r) (scanStore q sessionId db))"
    | (failed) err where "?q = Inl err" "?res = []"
    by blast
  then show ?thesis
  proof cases
    case ranked
    have sub: "set ?res \<subseteq> set (scanStore q sessionId db)"
      using set_take_subset [of limit "sort_key (\<lambda>r. - r_similarity r) (scanStore q sessionId db)"]
      by (simp add: ranked(2))
    have t: "\<forall>r\<in>set ?res. r_similarity r \<ge> similarityThreshold (config db)"
      using sub scanStore_result by blast
    have s: "sorted_wrt (\<lambda>a b. r_similarity a \<ge> r_similarity b) ?res"
      by (simp only: ranked(2) ranking_sorted)
    have p: "\<forall>q' v. ?q = Inr q' \<longrightarrow>
               prefix (filter (\<lambda>r. r_similarity r = v) ?res)
                      (filter (\<lambda>r. r_similarity r = v) (scanStore q' sessionId db))"
      using ranked(1) by (auto simp only: ranked(2) ranking_stable sum.inject)
    have l: "length ?res \<le> limit" by (simp add: ranked(2))
    have m: "\<forall>s. sessionId = Some s \<and> s \<noteq> [] \<longrightarrow>
               (\<forall>r\<in>set ?res. r_message r \<in> set (snd (getMessages s None db)))"
    proof (intro allI impI ballI)
      fix s r
      assume a: "sessionId = Some s \<and> s \<noteq> []" and r: "r \<in> set ?res"
      from r sub a have "r \<in> set (scanStore q (Some s) db)" by auto
      with a assms(2) have "r_message r \<in> set (sessionMessagesOf s db)"
        by (intro scanStore_in_session [of db s r q]) (simp_all add: mapsDistinct_def)
      with assms(1) show "r_message r \<in> set (snd (getMessages s None db))"
        by (simp add: getMessages_all)
    qed
    from t s p l m show ?thesis by blast
  next
    case failed
    then show ?thesis by auto
  qed
qed

lemma cosineSimilarity_unit: "cosineSimilarity [1, 0] [1, 0] = 1"
  by (simp add: cosineSimilarity_eq magnitude_eq lessThan_Suc numeral_2_eq_2)

lemma search_example:
  "snd (searchSimilarMessages unitEmbedder (QueryVector [1, 0]) (Some ''session_0_r'') 5 chatStore3) =
     [\<lparr>r_message = \<lparr>m_id = ''msg_on_0_r_1000_a'', m_sessionId = ''session_0_r'', m_role = User,
                     m_content = ''Hi'', m_timestamp = 1000, m_embedding = Some [1, 0]\<rparr>,
       r_similarity = 1\<rparr>,
      \<lparr>r_message = \<lparr>m_id = ''msg_on_0_r_2800_c'', m_sessionId = ''session_0_r'', m_role = User,
                     m_content = ''Hi'', m_timestamp = 2800, m_embedding = Some [1, 0]\<rparr>,
       r_similarity = 1\<rparr>]"
  by (simp add: chatStore3_eq searchSimilarMessages_def scanStore_def scanMessages_def inScope_def
        cosineSimilarity_unit)

theorem searchSimilarMessages_contract_witness:
  "isInitialized chatStore3 \<and> mapsDistinct chatStore3 \<and>
   snd (searchSimilarMessages unitEmbedder (QueryVector [1, 0]) (Some ''session_0_r'') 5 chatStore3) =
     [\<lparr>r_message = \<lparr>m_id = ''msg_on_0_r_1000_a'', m_sessionId = ''session_0_r'', m_role = User,
                     m_content = ''Hi'', m_timestamp = 1000, m_embedding = Some [1, 0]\<rparr>,
       r_similarity = 1\<rparr>,
      \<lparr>r_message = \<lparr>m_id = ''msg_on_0_r_2800_c'', m_sessionId = ''session_0_r'', m_role = User,
                     m_content = ''Hi'', m_timestamp = 2800, m_embedding = Some [1, 0]\<rparr>,
       r_similarity = 1\<rparr>] \<and>
   list_all (\<lambda>r. r_similarity r \<ge> similarityThreshold (config chatStore3) \<and>
                 r_message r \<in> set (snd (getMessages ''session_0_r'' None chatStore3)))
     (snd (searchSimilarMessages unitEmbedder (QueryVector [1, 0]) (Some ''session_0_r'') 5 chatStore3)) \<and>
   sorted_wrt (\<lambda>a b. r_similarity a \<ge> r_similarity b)
     (snd (searchSimilarMessages unitEmbedder (QueryVector [1, 0]) (Some ''session_0_r'') 5 chatStore3)) \<and>
   length (snd (searchSimilarMessages unitEmbedder (QueryVector [1, 0]) (Some ''session_0_r'') 5 chatStore3)) \<le> 5"
proof -
  have i: "isInitialized chatStore3" by (simp add: chatStore3_eq)
  have d: "mapsDistinct chatStore3" by (simp add: chatStore3_eq mapsDistinct_def)
  have n: "Some ''session_0_r'' = Some ''session_0_r'' \<and> ''session_0_r'' \<noteq> []" by simp
  from searchSimilarMessages_contract [OF i d, where embedText = unitEmbedder
        and query = "QueryVector [1, 0]" and sessionId = "Some ''session_0_r''" and limit = 5] n
  have "list_all (\<lambda>r. r_similarity r \<ge> similarityThreshold (config chatStore3) \<and>
                 r_message r \<in> set (snd (getMessages ''session_0_r'' None chatStore3)))
     (snd (searchSimilarMessages unitEmbedder (QueryVector [1, 0]) (Some ''session_0_r'') 5 chatStore3)) \<and>
   sorted_wrt (\<lambda>a b. r_similarity a \<ge> r_similarity b)
     (snd (searchSimilarMessages unitEmbedder (QueryVector [1, 0]) (Some ''session_0_r'') 5 chatStore3)) \<and>
   length (snd (searchSimilarMessages unitEmbedder (QueryVector [1, 0]) (Some ''session_0_r'') 5 chatStore3)) \<le> 5"
    unfolding list_all_iff by blast
  with i d search_example show ?thesis by blast
qed

text \<open>
  The claim as stated fails for the empty string: it is given as \<open>sessionId\<close>, no session
  has that id, and the message of another session is returned.
\<close>

theorem searchSimilarMessages_scope_counterexample:
  "snd (searchSimilarMessages unitEmbedder (QueryVector [1, 0]) (Some []) 5 chatStore1) =
     [\<lparr>r_message = \<lparr>m_id = ''msg_on_0_r_1000_a'', m_sessionId = ''session_0_r'', m_role = User,
                     m_content = ''Hi'', m_timestamp = 1000, m_embedding = Some [1, 0]\<rparr>,
       r_similarity = 1\<rparr>] \<and>
   snd (getMessages [] None chatStore1) = []"
  by (simp add: chatStore1_eq searchSimilarMessages_def scanStore_def scanMessages_def inScope_def
        cosineSimilarity_unit getMessages_def sessionMessagesOf_def)

section \<open>Maps built from entries\<close>

lemma update_fresh: "k \<notin> fst ` set m \<Longrightarrow> AList.update k v m = m @ [(k, v)]"
  by (induction m) auto

lemma fold_update_append:
  "distinct (map fst xs) \<Longrightarrow> fst ` set xs \<inter> fst ` set acc = {} \<Longrightarrow>
     fold (\<lambda>(k, v) m. AList.update k v m) xs acc = acc @ xs"
proof (induction xs arbitrary: acc)
  case Nil
  then show ?case by simp
next
  case (Cons x xs)
  obtain k v where x: "x = (k, v)" by (cases x)
  from Cons.prems x have fresh: "k \<notin> fst ` set acc" by auto
  have "fold (\<lambda>(k, v) m. AList.update k v m) xs (acc @ [(k, v)]) = (acc @ [(k, v)]) @ xs"
    using Cons.prems x by (intro Cons.IH) auto
  with fresh x show ?case by (simp add: update_fresh)
qed

lemma mapFromEntries_distinct: "distinct (map fst xs) \<Longrightarrow> mapFromEntries xs = xs"
  using fold_update_append [of xs "[]"] by (simp add: mapFromEntries_def)

lemma objectFromEntries_distinct: "distinct (map fst xs) \<Longrightarrow> objectFromEntries xs = xs"
  using fold_update_append [of xs "[]"] by (simp add: objectFromEntries_def)

lemma distinct_fold_update:
  "distinct (map fst acc) \<Longrightarrow> distinct (map fst (fold (\<lambda>(k, v) m. AList.update k v m) xs acc))"
  by (induction xs arbitrary: acc) (auto simp: distinct_update)

lemma distinct_mapFromEntries: "distinct (map fst (mapFromEntries xs))"
  by (simp add: mapFromEntries_def distinct_fold_update)

lemma map_of_fold_update:
  "map_of (fold (\<lambda>(k, v) m. AList.update k v m) xs acc) k = Some v \<Longrightarrow>
     (k, v) \<in> set xs \<or> map_of acc k = Some v"
proof (induction xs arbitrary: acc)
  case Nil
  then show ?case by simp
next
  case (Cons x xs)
  obtain k' v' where x: "x = (k', v')" by (cases x)
  from Cons.prems x
  have "map_of (fold (\<lambda>(k, v) m. AList.update k v m) xs (AList.update k' v' acc)) k = Some v"
    by simp
  from Cons.IH [OF this] have "(k, v) \<in> set xs \<or> map_of (AList.update k' v' acc) k = Some v" .
  then show ?case using x by (auto simp: update_conv' split: if_splits)
qed

lemma map_of_mapFromEntries: "map_of (mapFromEntries xs) k = Some v \<Longrightarrow> (k, v) \<in> set xs"
  using map_of_fold_update [of xs "[]" k v] by (simp add: mapFromEntries_def)

lemma set_objectEntries: "set (objectEntries obj) = set obj"
  by (auto simp: objectEntries_def)

lemma distinct_objectEntries:
  assumes "distinct (map fst obj)"
  shows "distinct (map fst (objectEntries obj))"
proof -
  from assms have d: "distinct obj" and i: "inj_on fst (set obj)"
    by (simp_all add: distinct_map)
  have "distinct (objectEntries obj)"
    using d by (auto simp: objectEntries_def)
  moreover have "inj_on fst (set (objectEntries obj))"
    using i by (simp add: set_objectEntries)
  ultimately show ?thesis by (simp add: distinct_map)
qed

lemma map_of_objectEntries:
  "distinct (map fst obj) \<Longrightarrow> map_of (objectEntries obj) = map_of obj"
  by (simp add: map_of_inject_set distinct_objectEntries set_objectEntries)

section \<open>The renamed sessions, evaluated\<close>

lemma mixStore_eq:
  "mixStore =
     \<lparr>sessions = [(''session_1_a'', \<lparr>s_id = ''renamed'', s_title = ''A'',
     s_preview = [], s_createdAt = 1, s_updatedAt = 2, s_messageCount = 0\<rparr>),
     (''session_3_b'', \<lparr>s_id = ''session_3_b'', s_title = ''B'', s_preview = [],
     s_createdAt = 3, s_updatedAt = 3, s_messageCount = 0\<rparr>)], messages =
     [(''session_1_a'', []), (''session_3_b'', [])], messageEmbeddings = [], config =
     \<lparr>maxMessagesPerSession = 100, embeddingDimensions = 128, similarityThreshold = 3
     / 10, maxStorageMB = 25, cleanupPolicy = \<lparr>maxAge = 30, maxSessions =
     1\<rparr>\<rparr>, isInitialized = True, fallbackStore = \<lparr>fb_sessions = [],
     fb_messages = [], fb_messageCounter = 0\<rparr>, asyncStorage = \<lparr>item = Some
     \<lparr>p_sessions = [(''session_1_a'', \<lparr>s_id = ''renamed'', s_title = ''A'',
     s_preview = [], s_createdAt = 1, s_updatedAt = 2, s_messageCount = 0\<rparr>),
     (''session_3_b'', \<lparr>s_id = ''session_3_b'', s_title = ''B'', s_preview = [],
     s_createdAt = 3, s_updatedAt = 3, s_messageCount = 0\<rparr>)], p_messages =
     [(''session_1_a'', []), (''session_3_b'', [])], p_embeddings = [], p_timestamp =
     3\<rparr>, failing = False\<rparr>\<rparr>"
  by code_simp

lemma clashStore_eq:
  "clashStore =
     \<lparr>sessions = [(''session_1_a'', \<lparr>s_id = ''session_3_b'', s_title = ''A'',
     s_preview = [], s_createdAt = 1, s_updatedAt = 2, s_messageCount = 0\<rparr>),
     (''session_3_b'', \<lparr>s_id = ''session_3_b'', s_title = ''B'', s_preview = [],
     s_createdAt = 3, s_updatedAt = 3, s_messageCount = 0\<rparr>)], messages =
     [(''session_1_a'', []), (''session_3_b'', [])], messageEmbeddings = [], config =
     \<lparr>maxMessagesPerSession = 100, embeddingDimensions = 128, similarityThreshold = 3
     / 10, maxStorageMB = 25, cleanupPolicy = \<lparr>maxAge = 30, maxSessions =
     1\<rparr>\<rparr>, isInitialized = True, fallbackStore = \<lparr>fb_sessions = [],
     fb_messages = [], fb_messageCounter = 0\<rparr>, asyncStorage = \<lparr>item = Some
     \<lparr>p_sessions = [(''session_1_a'', \<lparr>s_id = ''session_3_b'', s_title =
     ''A'', s_preview = [], s_createdAt = 1, s_updatedAt = 2, s_messageCount = 0\<rparr>),
     (''session_3_b'', \<lparr>s_id = ''session_3_b'', s_title = ''B'', s_preview = [],
     s_createdAt = 3, s_updatedAt = 3, s_messageCount = 0\<rparr>)], p_messages =
     [(''session_1_a'', []), (''session_3_b'', [])], p_embeddings = [], p_timestamp =
     3\<rparr>, failing = False\<rparr>\<rparr>"
  by code_simp

section \<open>Export and import\<close>

lemma rekey_sessions:
  "list_all (\<lambda>(k, s). s_id s = k) m \<Longrightarrow> map (\<lambda>s. (s_id s, s)) (map snd m) = m"
  by (induction m) auto

lemma exportData_snapshot:
  "isInitialized db \<Longrightarrow>
     snd (exportData now db) =
       \<lparr>sn_sessions = Some (map snd (sessions db)),
        sn_messages = Some (objectFromEntries (messages db)),
        sn_embeddings = Some (objectFromEntries (messageEmbeddings db)),
        sn_config = Some (config db), sn_timestamp = Some now\<rparr>"
  by (simp add: exportData_def)

lemma importData_full:
  "isInitialized target \<Longrightarrow>
     sessions (importData now \<lparr>sn_sessions = Some ss, sn_messages = Some ms, sn_embeddings = Some es,
                                 sn_config = c, sn_timestamp = t\<rparr> target)
       = mapFromEntries (map (\<lambda>s. (s_id s, s)) ss) \<and>
     messages (importData now \<lparr>sn_sessions = Some ss, sn_messages = Some ms, sn_embeddings = Some es,
                                 sn_config = c, sn_timestamp = t\<rparr> target)
       = mapFromEntries (objectEntries ms) \<and>
     messageEmbeddings (importData now \<lparr>sn_sessions = Some ss, sn_messages = Some ms, sn_embeddings = Some es,
                                 sn_config = c, sn_timestamp = t\<rparr> target)
       = mapFromEntries (objectEntries es)"
  by (simp add: importData_def Let_def)

text \<open>
  Claim C7, as amended. For an initialised store in which every session is stored under its
  own id, importing its export (into the same or another initialised store) gives the same
  session map, the same message list for every session and the same embedding vector for
  every message id. The message and embedding maps may come back in another key order,
  since \<open>Object.entries\<close> lists array-index keys first.
\<close>

theorem export_import_roundtrip:
  assumes "isInitialized db" and "mapsDistinct db" and "keyedById db" and "isInitialized target"
  shows "sessions (importData t2 (snd (exportData t1 db)) target) = sessions db \<and>
         map_of (messages (importData t2 (snd (exportData t1 db)) target)) = map_of (messages db) \<and>
         map_of (messageEmbeddings (importData t2 (snd (exportData t1 db)) target))
           = map_of (messageEmbeddings db) \<and>
         (\<forall>k. sessionMessagesOf k (importData t2 (snd (exportData t1 db)) target) = sessionMessagesOf k db) \<and>
         mapsDistinct (importData t2 (snd (exportData t1 db)) target) \<and>
         keyedById (importData t2 (snd (exportData t1 db)) target)"
proof -
  let ?db' = "importData t2 (snd (exportData t1 db)) target"
  from assms(2) have d: "distinct (map fst (sessions db))" "distinct (map fst (messages db))"
      "distinct (map fst (messageEmbeddings db))"
    by (simp_all add: mapsDistinct_def)
  from assms(3) have "map (\<lambda>s. (s_id s, s)) (map snd (sessions db)) = sessions db"
    by (simp only: keyedById_def rekey_sessions)
  then have s: "sessions ?db' = sessions db"
    using importData_full [OF assms(4)] d(1)
    by (simp add: exportData_snapshot [OF assms(1)] mapFromEntries_distinct)
  have m: "messages ?db' = objectEntries (messages db)"
    using importData_full [OF assms(4)] d(2)
    by (simp add: exportData_snapshot [OF assms(1)] objectFromEntries_distinct
          mapFromEntries_distinct distinct_objectEntries)
  have e: "messageEmbeddings ?db' = objectEntries (messageEmbeddings db)"
    using importData_full [OF assms(4)] d(3)
    by (simp add: exportData_snapshot [OF assms(1)] objectFromEntries_distinct
          mapFromEntries_distinct distinct_objectEntries)
  have mm: "map_of (messages ?db') = map_of (messages db)"
    using d(2) by (simp only: m map_of_objectEntries)
  have me: "map_of (messageEmbeddings ?db') = map_of (messageEmbeddings db)"
    using d(3) by (simp only: e map_of_objectEntries)
  have sm: "\<forall>k. sessionMessagesOf k ?db' = sessionMessagesOf k db"
    by (simp add: sessionMessagesOf_def mm)
  have dist: "mapsDistinct ?db'"
    using d by (simp add: mapsDistinct_def s m e distinct_objectEntries)
  have key: "keyedById ?db'" using assms(3) by (simp add: keyedById_def s)
  from s mm me sm dist key show ?thesis by blast
qed

theorem export_import_roundtrip_witness:
  "isInitialized chatStore3 \<and> mapsDistinct chatStore3 \<and> keyedById chatStore3 \<and>
   isInitialized emptyStore \<and>
   sessions (importData 5 (snd (exportData 4 chatStore3)) emptyStore) = sessions chatStore3 \<and>
   map_of (messages (importData 5 (snd (exportData 4 chatStore3)) emptyStore))
     = map_of (messages chatStore3) \<and>
   map_of (messageEmbeddings (importData 5 (snd (exportData 4 chatStore3)) emptyStore))
     = map_of (messageEmbeddings chatStore3) \<and>
   length (sessionMessagesOf ''session_0_r'' (importData 5 (snd (exportData 4 chatStore3)) emptyStore)) = 2"
proof -
  have i: "isInitialized chatStore3" by (simp add: chatStore3_eq)
  have d: "mapsDistinct chatStore3" by (simp add: chatStore3_eq mapsDistinct_def)
  have k: "keyedById chatStore3" by (simp add: chatStore3_eq keyedById_def)
  have t: "isInitialized emptyStore" by (simp add: emptyStore_def)
  have l: "length (sessionMessagesOf ''session_0_r'' chatStore3) = 2"
    by (simp add: chatStore3_eq sessionMessagesOf_def)
  from export_import_roundtrip [OF i d k t, of 5 4] l
  have "sessions (importData 5 (snd (exportData 4 chatStore3)) emptyStore) = sessions chatStore3 \<and>
   map_of (messages (importData 5 (snd (exportData 4 chatStore3)) emptyStore))
     = map_of (messages chatStore3) \<and>
   map_of (messageEmbeddings (importData 5 (snd (exportData 4 chatStore3)) emptyStore))
     = map_of (messageEmbeddings chatStore3) \<and>
   length (sessionMessagesOf ''session_0_r'' (importData 5 (snd (exportData 4 chatStore3)) emptyStore)) = 2"
    by simp
  with i d k t show ?thesis by blast
qed

text \<open>
  The claim as stated fails on a store reached through the public operations:
  \<open>updateSession\<close> spreads its updates over the session, the \<open>id\<close> field included, while the
  session stays under its old key. The export lists the sessions without their keys, and
  the import keys each by its \<open>id\<close> field, so of two sessions with one \<open>id\<close> only the
  later survives.
\<close>

theorem export_import_counterexample:
  "map s_title (map snd (sessions clashStore)) = [''A'', ''B''] \<and>
   map s_title (map snd (sessions (importData 5 (snd (exportData 4 clashStore)) clashStore))) = [''B''] \<and>
   map_option s_title (snd (getSession ''session_1_a'' clashStore)) = Some ''A'' \<and>
   snd (getSession ''session_1_a'' (importData 5 (snd (exportData 4 clashStore)) clashStore)) = None"
  unfolding clashStore_eq by code_simp

section \<open>The message count of a session\<close>

lemma countsMatchI:
  assumes "distinct (map fst (sessions db))"
    and "\<And>k s. map_of (sessions db) k = Some s \<Longrightarrow> s_messageCount s = length (sessionMessagesOf k db)"
  shows "countsMatch db"
  using assms by (auto simp: countsMatch_def list_all_iff)

lemma countsMatchD:
  assumes "countsMatch db" and "map_of (sessions db) k = Some s"
  shows "s_messageCount s = length (sessionMessagesOf k db)"
  using assms map_of_SomeD [OF assms(2)] by (auto simp: countsMatch_def list_all_iff)

lemma consistentStore_saveToStorage [simp]:
  "consistentStore (saveToStorage now db) = consistentStore db"
  by (simp add: consistentStore_def mapsDistinct_def countsMatch_def)

lemma consistentStore_fallback [simp]:
  "consistentStore (db\<lparr>fallbackStore := fb\<rparr>) = consistentStore db"
  by (simp add: consistentStore_def mapsDistinct_def countsMatch_def sessionMessagesOf_def)

lemma consistentStoreI:
  assumes "isInitialized db"
    and "distinct (map fst (sessions db))" and "distinct (map fst (messages db))"
    and "distinct (map fst (messageEmbeddings db))"
    and "\<And>k s. map_of (sessions db) k = Some s \<Longrightarrow> s_messageCount s = length (sessionMessagesOf k db)"
  shows "consistentStore db"
  unfolding consistentStore_def mapsDistinct_def
  using assms(1-4) countsMatchI [OF assms(2) assms(5)] by blast

lemma consistentStoreD:
  assumes "consistentStore db"
  shows "isInitialized db" and "distinct (map fst (sessions db))"
    and "distinct (map fst (messages db))" and "distinct (map fst (messageEmbeddings db))"
    and "\<And>k s. map_of (sessions db) k = Some s \<Longrightarrow> s_messageCount s = length (sessionMessagesOf k db)"
  using assms by (auto simp: consistentStore_def mapsDistinct_def dest: countsMatchD)

lemma createSession_consistent:
  assumes "consistentStore db"
  shows "consistentStore (fst (createSession now rnd title db))"
proof -
  note c = consistentStoreD [OF assms]
  define session where "session = snd (createSession now rnd title db)"
  define db1 where "db1 = db\<lparr>sessions := AList.update (s_id session) session (sessions db),
                               messages := AList.update (s_id session) [] (messages db)\<rparr>"
  have r: "fst (createSession now rnd title db) = saveToStorage now db1"
    and z: "s_messageCount session = 0"
    using c(1) by (simp_all add: createSession_def Let_def db1_def session_def)
  have "consistentStore db1"
  proof (rule consistentStoreI)
    fix k s
    assume "map_of (sessions db1) k = Some s"
    then have "(k = s_id session \<and> s = session) \<or> (k \<noteq> s_id session \<and> map_of (sessions db) k = Some s)"
      by (auto simp: db1_def update_conv' split: if_splits)
    then show "s_messageCount s = length (sessionMessagesOf k db1)"
      using z c(5) by (auto simp: db1_def sessionMessagesOf_def update_conv')
  qed (use c in \<open>simp_all add: db1_def distinct_update\<close>)
  then show ?thesis by (simp add: r)
qed

lemma addMessage_consistent:
  assumes "consistentStore db"
  shows "consistentStore (fst (addMessage embedText now rnd d db))"
proof (cases "isDuplicate (newMessage now rnd d) (sessionMessagesOf (d_sessionId d) db)")
  case True
  with assms show ?thesis
    by (simp add: addMessage_def Let_def consistentStoreD(1))
next
  case False
  note c = consistentStoreD [OF assms]
  obtain message1 db1 where a: "attachEmbedding embedText (newMessage now rnd d) db = (message1, db1)"
    by (cases "attachEmbedding embedText (newMessage now rnd d) db") blast
  define msgs where "msgs = sessionMessagesOf (d_sessionId d) db"
  define db2 where "db2 = storeMessage now msgs message1 db1"
  from False a c(1) have r: "fst (addMessage embedText now rnd d db) = saveToStorage now db2"
    by (simp add: addMessage_def Let_def db2_def msgs_def)
  note as = attachEmbedding_store [OF a]
  have sid: "m_sessionId message1 = d_sessionId d"
    using attachEmbedding_message [OF a] by (simp add: newMessage_fields)
  have emb: "distinct (map fst (messageEmbeddings db1))"
    using a c(4) by (auto simp: attachEmbedding_def distinct_update split: sum.splits)
  have "consistentStore db2"
  proof (rule consistentStoreI)
    show "isInitialized db2" using as c(1) by (simp add: db2_def storeMessage_frame)
    show "distinct (map fst (sessions db2))"
      using as c(2) by (simp add: db2_def storeMessage_sessions distinct_update split: option.splits)
    show "distinct (map fst (messages db2))"
      using as c(3) by (simp add: db2_def storeMessage_messages distinct_update)
    show "distinct (map fst (messageEmbeddings db2))"
      using emb by (simp add: db2_def storeMessage_frame)
  next
    fix k s
    assume k: "map_of (sessions db2) k = Some s"
    have old: "sessionMessagesOf k db1 = sessionMessagesOf k db" for k
      using as by (simp add: sessionMessagesOf_def)
    show "s_messageCount s = length (sessionMessagesOf k db2)"
    proof (cases "k = d_sessionId d")
      case True
      with k as sid have "s_messageCount s = Suc (length msgs)"
        by (auto simp: db2_def storeMessage_sessions update_conv' split: option.splits)
      with True sid show ?thesis by (simp add: db2_def sessionMessagesOf_storeMessage)
    next
      case False
      with k as sid have "map_of (sessions db) k = Some s"
        by (auto simp: db2_def storeMessage_sessions update_conv' split: option.splits)
      from c(5) [OF this] False sid show ?thesis
        by (simp add: db2_def sessionMessagesOf_storeMessage old)
    qed
  qed
  then show ?thesis by (simp add: r)
qed

lemma deleteSession_consistent:
  assumes "consistentStore db"
  shows "consistentStore (deleteSession now k db)"
proof (rule consistentStoreI)
  note c = consistentStoreD [OF assms]
  show "isInitialized (deleteSession now k db)" by (rule deleteSession_frame)
  show "distinct (map fst (sessions (deleteSession now k db)))"
    using c by (simp add: deleteSession_sessions distinct_delete)
  show "distinct (map fst (messages (deleteSession now k db)))"
    using c by (simp add: deleteSession_messages distinct_delete)
  show "distinct (map fst (messageEmbeddings (deleteSession now k db)))"
    using c by (simp add: deleteSession_messageEmbeddings distinct_map_filter)
  fix k' s
  assume "map_of (sessions (deleteSession now k db)) k' = Some s"
  with c(1) have "k' \<noteq> k" "map_of (sessions db) k' = Some s"
    by (auto simp: deleteSession_sessions delete_conv' split: if_splits)
  with c(5) [of k' s] c(1) show "s_messageCount s = length (sessionMessagesOf k' (deleteSession now k db))"
    by (simp add: sessionMessagesOf_def deleteSession_messages delete_conv')
qed

lemma find_hasMessage:
  assumes "find (hasMessage k) m = Some (sid, msgs)" and "distinct (map fst m)"
  shows "map_of m sid = Some msgs"
proof -
  from assms(1) have "(sid, msgs) \<in> set m"
    by (auto simp: find_Some_iff in_set_conv_nth)
  with assms(2) show ?thesis by simp
qed

lemma deleteMessage_consistent:
  assumes "consistentStore db"
  shows "consistentStore (deleteMessage now k db)"
proof (cases "find (hasMessage k) (messages db)")
  case None
  with assms show ?thesis
    by (simp add: deleteMessage_def Let_def consistentStoreD(1))
next
  case (Some entry)
  note c = consistentStoreD [OF assms]
  obtain sid msgs where e: "entry = (sid, msgs)" by (cases entry)
  define msgs' where "msgs' = removeFirst k msgs"
  define db1 where "db1 = db\<lparr>messages := AList.update sid msgs' (messages db),
                               messageEmbeddings := AList.delete k (messageEmbeddings db)\<rparr>"
  define db2 where "db2 = (case map_of (sessions db1) sid of
                             Some session \<Rightarrow>
                               db1\<lparr>sessions := AList.update sid
                                     (session\<lparr>s_messageCount := length msgs', s_updatedAt := now\<rparr>)
                                     (sessions db1)\<rparr>
                           | None \<Rightarrow> db1)"
  have r: "deleteMessage now k db =
             (saveToStorage now db2)\<lparr>fallbackStore := fb_deleteMessage k (fallbackStore (saveToStorage now db2))\<rparr>"
    unfolding db2_def db1_def msgs'_def
    using Some e c(1) by (simp add: deleteMessage_def Let_def split: option.splits)
  have m2: "messages db2 = AList.update sid msgs' (messages db)"
    by (simp add: db2_def db1_def split: option.splits)
  have s2: "sessions db2 = (case map_of (sessions db) sid of
                              Some session \<Rightarrow> AList.update sid
                                  (session\<lparr>s_messageCount := length msgs', s_updatedAt := now\<rparr>) (sessions db)
                            | None \<Rightarrow> sessions db)"
    by (simp add: db2_def db1_def split: option.splits)
  have "consistentStore db2"
  proof (rule consistentStoreI)
    show "isInitialized db2" using c(1) by (simp add: db2_def db1_def split: option.splits)
    show "distinct (map fst (sessions db2))"
      using c(2) by (simp add: s2 distinct_update split: option.splits)
    show "distinct (map fst (messages db2))" using c(3) by (simp add: m2 distinct_update)
    show "distinct (map fst (messageEmbeddings db2))"
      using c(4) by (simp add: db2_def db1_def distinct_delete split: option.splits)
  next
    fix k' s
    assume k': "map_of (sessions db2) k' = Some s"
    show "s_messageCount s = length (sessionMessagesOf k' db2)"
    proof (cases "k' = sid")
      case True
      with k' have "s_messageCount s = length msgs'"
        by (auto simp: s2 update_conv' split: option.splits)
      with True show ?thesis by (simp add: sessionMessagesOf_def m2 update_conv')
    next
      case False
      with k' have "map_of (sessions db) k' = Some s"
        by (auto simp: s2 update_conv' split: option.splits)
      from c(5) [OF this] False show ?thesis
        by (simp add: sessionMessagesOf_def m2 update_conv')
    qed
  qed
  then show ?thesis by (simp add: r)
qed

lemma applyUpdates_count:
  "u_messageCount updates = None \<Longrightarrow> s_messageCount (applyUpdates updates s) = s_messageCount s"
  by (simp add: applyUpdates_def)

lemma updateSession_consistent:
  assumes "consistentStore db" and "u_messageCount updates = None"
  shows "consistentStore (updateSession now k updates db)"
proof (cases "map_of (sessions db) k")
  case None
  with assms show ?thesis
    by (simp add: updateSession_def Let_def consistentStoreD(1))
next
  case (Some session)
  note c = consistentStoreD [OF assms(1)]
  define db1 where "db1 = db\<lparr>sessions := AList.update k ((applyUpdates updates session)\<lparr>s_updatedAt := now\<rparr>) (sessions db)\<rparr>"
  have r: "updateSession now k updates db = saveToStorage now db1"
    using Some c(1) by (simp add: updateSession_def Let_def db1_def)
  have "consistentStore db1"
  proof (rule consistentStoreI)
    fix k' s
    assume "map_of (sessions db1) k' = Some s"
    then have "(k' = k \<and> s_messageCount s = s_messageCount session) \<or>
               (k' \<noteq> k \<and> map_of (sessions db) k' = Some s)"
      using assms(2) by (auto simp: db1_def update_conv' applyUpdates_count split: if_splits)
    then show "s_messageCount s = length (sessionMessagesOf k' db1)"
      using c(5) Some by (auto simp: db1_def sessionMessagesOf_def)
  qed (use c in \<open>simp_all add: db1_def distinct_update\<close>)
  then show ?thesis by (simp add: r)
qed

lemma fold_preserves:
  assumes "\<And>x d. P d \<Longrightarrow> P (f x d)" and "P d"
  shows "P (fold f xs d)"
  using assms(2) by (induction xs arbitrary: d) (simp_all add: assms(1))

lemma cleanup_consistent:
  assumes "consistentStore db"
  shows "consistentStore (cleanup now db)"
proof -
  note c = consistentStoreD [OF assms]
  define cutoffDate where "cutoffDate = now - maxAge (cleanupPolicy (config db)) * 24 * 60 * 60 * 1000"
  define db1 where "db1 = fold (\<lambda>(ident, session) d.
        if s_createdAt session < cutoffDate then deleteSession now ident d else d) (sessions db) db"
  define sorted where "sorted = sort_key (\<lambda>s. - s_updatedAt s) (map snd (sessions db1))"
  define db2 where "db2 = (if length sorted > maxSessions (cleanupPolicy (config db1))
                 then fold (\<lambda>session d. deleteSession now (s_id session) d)
                           (drop (maxSessions (cleanupPolicy (config db1))) sorted) db1
                 else db1)"
  have r: "cleanup now db = saveToStorage now db2"
    using c(1) by (simp add: cleanup_def Let_def db2_def sorted_def db1_def cutoffDate_def)
  have "consistentStore db1"
    unfolding db1_def
    by (rule fold_preserves [where P = consistentStore]) (auto simp: assms deleteSession_consistent)
  then have "consistentStore db2"
    unfolding db2_def
    by (auto intro: fold_preserves [where P = consistentStore] deleteSession_consistent)
  then show ?thesis by (simp add: r)
qed

lemma importData_consistent:
  assumes "consistentStore db" and "snapshotConsistent data"
  shows "consistentStore (importData now data db)"
proof -
  note c = consistentStoreD [OF assms(1)]
  from assms(2) obtain ss obj where d: "sn_sessions data = Some ss" "sn_messages data = Some obj"
      "distinct (map fst obj)"
      "\<And>s. s \<in> set ss \<Longrightarrow>
         s_messageCount s = length (case map_of obj (s_id s) of None \<Rightarrow> [] | Some msgs \<Rightarrow> msgs)"
    by (auto simp: snapshotConsistent_def list_all_iff split: option.splits)
  define db3 where "db3 = (case sn_embeddings data of
                   Some es \<Rightarrow> db\<lparr>sessions := mapFromEntries (map (\<lambda>s. (s_id s, s)) ss),
                                 messages := mapFromEntries (objectEntries obj),
                                 messageEmbeddings := mapFromEntries (objectEntries es)\<rparr>
                 | None \<Rightarrow> db\<lparr>sessions := mapFromEntries (map (\<lambda>s. (s_id s, s)) ss),
                               messages := mapFromEntries (objectEntries obj)\<rparr>)"
  have r: "importData now data db = saveToStorage now db3"
    using c(1) d(1,2) by (simp add: importData_def Let_def db3_def split: option.splits)
  have s3: "sessions db3 = mapFromEntries (map (\<lambda>s. (s_id s, s)) ss)"
    and m3: "messages db3 = objectEntries obj"
    using d(3) by (simp_all add: db3_def mapFromEntries_distinct distinct_objectEntries split: option.splits)
  have "consistentStore db3"
  proof (rule consistentStoreI)
    show "isInitialized db3" using c(1) by (simp add: db3_def split: option.splits)
    show "distinct (map fst (sessions db3))" by (simp add: s3 distinct_mapFromEntries)
    show "distinct (map fst (messages db3))" using d(3) by (simp add: m3 distinct_objectEntries)
    show "distinct (map fst (messageEmbeddings db3))"
      using c(4) by (simp add: db3_def distinct_mapFromEntries split: option.splits)
  next
    fix k s
    assume "map_of (sessions db3) k = Some s"
    then have "(k, s) \<in> set (map (\<lambda>s. (s_id s, s)) ss)"
      by (simp only: s3 map_of_mapFromEntries)
    then have "s \<in> set ss" "k = s_id s" by auto
    with d(4) [of s] d(3) show "s_messageCount s = length (sessionMessagesOf k db3)"
      by (simp add: sessionMessagesOf_def m3 map_of_objectEntries)
  qed
  then show ?thesis by (simp add: r)
qed

text \<open>
  Claim C9, as amended. On a consistent store (initialised, with every session's
  \<open>messageCount\<close> equal to the number of messages stored for it) the operations
  \<open>createSession\<close>, \<open>addMessage\<close> (both paths), \<open>deleteMessage\<close>, \<open>deleteSession\<close> and
  \<open>cleanup\<close> give a consistent store again; so does \<open>updateSession\<close> when the updates do not
  set \<open>messageCount\<close>, and so does \<open>importData\<close> when the snapshot is itself consistent.
\<close>

theorem messageCount_invariant:
  assumes "consistentStore db"
  shows "consistentStore (fst (createSession now rnd title db)) \<and>
         consistentStore (fst (addMessage embedText now rnd d db)) \<and>
         consistentStore (deleteMessage now k db) \<and>
         consistentStore (deleteSession now k db) \<and>
         consistentStore (cleanup now db) \<and>
         (u_messageCount updates = None \<longrightarrow> consistentStore (updateSession now k updates db)) \<and>
         (snapshotConsistent data \<longrightarrow> consistentStore (importData now data db)) \<and>
         (\<forall>k s. map_of (sessions db) k = Some s \<longrightarrow>
                  s_messageCount s = length (snd (getMessages k None db)))"
proof -
  have "\<forall>k s. map_of (sessions db) k = Some s \<longrightarrow>
                  s_messageCount s = length (snd (getMessages k None db))"
    using consistentStoreD(1,5) [OF assms] by (simp add: getMessages_all)
  then show ?thesis
    using assms
    by (simp add: createSession_consistent addMessage_consistent deleteMessage_consistent
          deleteSession_consistent cleanup_consistent updateSession_consistent importData_consistent)
qed

theorem messageCount_invariant_witness:
  "consistentStore chatStore1 \<and>
   map_option s_messageCount (map_of (sessions chatStore1) ''session_0_r'') = Some 1 \<and>
   length (snd (getMessages ''session_0_r'' None chatStore1)) = 1 \<and>
   u_messageCount (retitle ''Greetings'') = None \<and>
   snapshotConsistent (snd (exportData 1500 chatStore0)) \<and>
   consistentStore (fst (createSession 1500 ''z'' None chatStore1)) \<and>
   consistentStore (fst (addMessage unitEmbedder 1500 ''z'' greeting chatStore1)) \<and>
   consistentStore (deleteMessage 1500 ''msg_on_0_r_1000_a'' chatStore1) \<and>
   consistentStore (deleteSession 1500 ''session_0_r'' chatStore1) \<and>
   consistentStore (cleanup 1500 chatStore1) \<and>
   consistentStore (updateSession 1500 ''session_0_r'' (retitle ''Greetings'') chatStore1) \<and>
   consistentStore (importData 1500 (snd (exportData 1500 chatStore0)) chatStore1)"
proof -
  have c: "consistentStore chatStore1"
    by (simp add: chatStore1_eq consistentStore_def mapsDistinct_def countsMatch_def sessionMessagesOf_def)
  have n: "map_option s_messageCount (map_of (sessions chatStore1) ''session_0_r'') = Some 1"
    by (simp add: chatStore1_eq)
  have g: "length (snd (getMessages ''session_0_r'' None chatStore1)) = 1"
    by (simp add: chatStore1_eq getMessages_def sessionMessagesOf_def)
  have u: "u_messageCount (retitle ''Greetings'') = None" by (simp add: retitle_def)
  have s: "snapshotConsistent (snd (exportData 1500 chatStore0))"
    by (simp add: chatStore0_eq exportData_def snapshotConsistent_def objectFromEntries_def)
  from messageCount_invariant [OF c, of 1500 "''z''" None unitEmbedder greeting
        "''msg_on_0_r_1000_a''" "retitle ''Greetings''" "snd (exportData 1500 chatStore0)"]
       messageCount_invariant [OF c, of 1500 "''z''" None unitEmbedder greeting
        "''session_0_r''" "retitle ''Greetings''" "snd (exportData 1500 chatStore0)"]
       c n g u s
  show ?thesis by blast
qed

text \<open>
  The claim as stated fails for \<open>updateSession\<close> and for \<open>importData\<close>: the updates may
  carry a \<open>messageCount\<close>, which is spread over the session, and a snapshot is taken as it
  comes.
\<close>

theorem messageCount_invariant_counterexample:
  "countsMatch chatStore1 \<and>
   \<not> countsMatch (updateSession 1500 ''session_0_r'' (setCount 7) chatStore1) \<and>
   \<not> countsMatch (importData 1500 staleSnapshot chatStore1)"
  unfolding chatStore1_eq by code_simp

section \<open>The aged sessions, evaluated\<close>

lemma agedStore_eq:
  "agedStore =
     \<lparr>sessions = [(''session_0_a'', \<lparr>s_id = ''session_0_a'', s_title =
     ''New Chat'', s_preview = [], s_createdAt = 0, s_updatedAt = 0, s_messageCount =
     0\<rparr>), (''session_3024000000_b'', \<lparr>s_id = ''session_3024000000_b'', s_title
     = ''New Chat'', s_preview = [], s_createdAt = 3024000000, s_updatedAt = 3024000000,
     s_messageCount = 0\<rparr>), (''session_3110400000_c'', \<lparr>s_id =
     ''session_3110400000_c'', s_title = ''New Chat'', s_preview = [], s_createdAt =
     3110400000, s_updatedAt = 3110400000, s_messageCount = 0\<rparr>)], messages =
     [(''session_0_a'', []), (''session_3024000000_b'', []), (''session_3110400000_c'',
     [])], messageEmbeddings = [], config = \<lparr>maxMessagesPerSession = 100,
     embeddingDimensions = 128, similarityThreshold = 3 / 10, maxStorageMB = 25,
     cleanupPolicy = \<lparr>maxAge = 30, maxSessions = 1\<rparr>\<rparr>, isInitialized =
     True, fallbackStore = \<lparr>fb_sessions = [], fb_messages = [], fb_messageCounter =
     0\<rparr>, asyncStorage = \<lparr>item = Some \<lparr>p_sessions = [(''session_0_a'',
     \<lparr>s_id = ''session_0_a'', s_title = ''New Chat'', s_preview = [], s_createdAt =
     0, s_updatedAt = 0, s_messageCount = 0\<rparr>), (''session_3024000000_b'',
     \<lparr>s_id = ''session_3024000000_b'', s_title = ''New Chat'', s_preview = [],
     s_createdAt = 3024000000, s_updatedAt = 3024000000, s_messageCount = 0\<rparr>),
     (''session_3110400000_c'', \<lparr>s_id = ''session_3110400000_c'', s_title =
     ''New Chat'', s_preview = [], s_createdAt = 3110400000, s_updatedAt = 3110400000,
     s_messageCount = 0\<rparr>)], p_messages = [(''session_0_a'', []),
     (''session_3024000000_b'', []), (''session_3110400000_c'', [])], p_embeddings = [],
     p_timestamp = 3110400000\<rparr>, failing = False\<rparr>\<rparr>"
  by code_simp

lemma cleanup_agedStore:
  "cleanup 3456000000 agedStore =
     \<lparr>sessions = [(''session_3110400000_c'', \<lparr>s_id = ''session_3110400000_c'',
     s_title = ''New Chat'', s_preview = [], s_createdAt = 3110400000, s_updatedAt =
     3110400000, s_messageCount = 0\<rparr>)], messages = [(''session_3110400000_c'', [])],
     messageEmbeddings = [], config = \<lparr>maxMessagesPerSession = 100,
     embeddingDimensions = 128, similarityThreshold = 3 / 10, maxStorageMB = 25,
     cleanupPolicy = \<lparr>maxAge = 30, maxSessions = 1\<rparr>\<rparr>, isInitialized =
     True, fallbackStore = \<lparr>fb_sessions = [], fb_messages = [], fb_messageCounter =
     0\<rparr>, asyncStorage = \<lparr>item = Some \<lparr>p_sessions =
     [(''session_3110400000_c'', \<lparr>s_id = ''session_3110400000_c'', s_title =
     ''New Chat'', s_preview = [], s_createdAt = 3110400000, s_updatedAt = 3110400000,
     s_messageCount = 0\<rparr>)], p_messages = [(''session_3110400000_c'', [])],
     p_embeddings = [], p_timestamp = 3456000000\<rparr>, failing = False\<rparr>\<rparr>"
  unfolding agedStore_eq by code_simp

lemma cleanup_mixStore: "map fst (sessions (cleanup 4 mixStore)) = [''session_1_a'', ''session_3_b'']"
  unfolding mixStore_eq by code_simp

section \<open>Retention\<close>

lemma deleteSession_config:
  "isInitialized db \<Longrightarrow> config (deleteSession now k db) = config db"
  by (simp add: deleteSession_frame)

lemma fold_deleteSession_sessions:
  assumes "isInitialized d"
  shows "sessions (fold (\<lambda>x d. if C x then deleteSession now (g x) d else d) xs d)
           = filter (\<lambda>(k, s). k \<notin> g ` {x \<in> set xs. C x}) (sessions d) \<and>
         isInitialized (fold (\<lambda>x d. if C x then deleteSession now (g x) d else d) xs d) \<and>
         config (fold (\<lambda>x d. if C x then deleteSession now (g x) d else d) xs d) = config d"
  using assms
proof (induction xs arbitrary: d)
  case Nil
  then show ?case by simp
next
  case (Cons x xs)
  show ?case
  proof (cases "C x")
    case True
    have i: "isInitialized (deleteSession now (g x) d)" by (rule deleteSession_frame)
    have "filter (\<lambda>(k, s). k \<notin> g ` {y \<in> set xs. C y}) (AList.delete (g x) (sessions d))
          = filter (\<lambda>(k, s). k \<notin> g ` {y \<in> set (x # xs). C y}) (sessions d)"
      using True by (auto simp: AList.delete_eq intro!: filter_cong)
    with Cons.IH [OF i] True Cons.prems show ?thesis
      by (simp add: deleteSession_sessions deleteSession_config)
  next
    case False
    have "{y \<in> set (x # xs). C y} = {y \<in> set xs. C y}" using False by auto
    with Cons.IH [OF Cons.prems] False show ?thesis by simp
  qed
qed

lemma fold_deleteSession_noop:
  "\<forall>x\<in>set xs. \<not> C x \<Longrightarrow> fold (\<lambda>x d. if C x then deleteSession now (g x) d else d) xs d = d"
  by (induction xs arbitrary: d) simp_all

lemma keyed_filter_length:
  assumes "list_all (\<lambda>(k, s). s_id s = k) m"
  shows "length (filter (\<lambda>(k, s). k \<notin> X) m) = length (filter (\<lambda>s. s_id s \<notin> X) (map snd m))"
  using assms by (induction m) auto

lemma keyed_ids: "list_all (\<lambda>(k, s). s_id s = k) m \<Longrightarrow> map s_id (map snd m) = map fst m"
  by (induction m) auto

text \<open>Dropping the tail of a ranking of sessions with distinct ids leaves at most the cap.\<close>

lemma cap_length:
  assumes "distinct (map s_id ss)" and "set ranked = set ss"
  shows "length (filter (\<lambda>s. s_id s \<notin> s_id ` set (drop n ranked)) ss) \<le> n"
proof -
  let ?R = "filter (\<lambda>s. s_id s \<notin> s_id ` set (drop n ranked)) ss"
  from assms(1) have d: "distinct ss" by (simp add: distinct_map)
  have "set ?R \<subseteq> set (take n ranked)"
  proof
    fix s
    assume "s \<in> set ?R"
    then have s: "s \<in> set ss" "s \<notin> set (drop n ranked)" by auto
    have "set ranked = set (take n ranked) \<union> set (drop n ranked)"
      by (metis append_take_drop_id set_append)
    with s assms(2) show "s \<in> set (take n ranked)" by blast
  qed
  then have "card (set ?R) \<le> card (set (take n ranked))"
    by (intro card_mono) simp_all
  also have "\<dots> \<le> length (take n ranked)" by (rule card_length)
  also have "\<dots> \<le> n" by simp
  finally have "card (set ?R) \<le> n" .
  moreover have "distinct ?R" using d by simp
  then have "card (set ?R) = length ?R" by (rule distinct_card)
  ultimately show ?thesis by (simp only:)
qed

lemma cleanup_phase1:
  assumes "isInitialized db"
  shows "sessions (fold (\<lambda>(ident, session) d.
                     if s_createdAt session < c then deleteSession now ident d else d) xs db)
           = filter (\<lambda>(k, s). k \<notin> fst ` {x \<in> set xs. s_createdAt (snd x) < c}) (sessions db) \<and>
         isInitialized (fold (\<lambda>(ident, session) d.
                     if s_createdAt session < c then deleteSession now ident d else d) xs db) \<and>
         config (fold (\<lambda>(ident, session) d.
                     if s_createdAt session < c then deleteSession now ident d else d) xs db) = config db"
  using fold_deleteSession_sessions [OF assms, of "\<lambda>x. s_createdAt (snd x) < c" now fst xs]
  by (simp add: case_prod_unfold)

lemma cleanup_phase2:
  assumes "isInitialized db"
  shows "sessions (fold (\<lambda>session d. deleteSession now (s_id session) d) ys db)
           = filter (\<lambda>(k, s). k \<notin> s_id ` set ys) (sessions db)"
  using fold_deleteSession_sessions [OF assms, of "\<lambda>x. True" now s_id ys]
  by simp

lemma cleanup_sessions:
  assumes "isInitialized db"
  shows "\<exists>X Y. sessions (cleanup now db) =
           (let m1 = filter (\<lambda>(k, s). k \<notin> X) (sessions db);
                ranked = sort_key (\<lambda>s. - s_updatedAt s) (map snd m1);
                n = maxSessions (cleanupPolicy (config db))
            in if length ranked > n
               then filter (\<lambda>(k, s). k \<notin> s_id ` set (drop n ranked)) m1 else m1) \<and>
           X = fst ` {x \<in> set (sessions db).
                        s_createdAt (snd x) < now - maxAge (cleanupPolicy (config db)) * 24 * 60 * 60 * 1000}"
proof -
  define c where "c = now - maxAge (cleanupPolicy (config db)) * 24 * 60 * 60 * 1000"
  define db1 where "db1 = fold (\<lambda>(ident, session) d.
                     if s_createdAt session < c then deleteSession now ident d else d) (sessions db) db"
  note p1 = cleanup_phase1 [OF assms, of c now "sessions db", folded db1_def]
  from p1 have i1: "isInitialized db1" by simp
  have "sessions (cleanup now db) =
          (let ranked = sort_key (\<lambda>s. - s_updatedAt s) (map snd (sessions db1));
               n = maxSessions (cleanupPolicy (config db1))
           in if length ranked > n
              then sessions (fold (\<lambda>session d. deleteSession now (s_id session) d) (drop n ranked) db1)
              else sessions db1)"
    using assms by (simp add: cleanup_def Let_def db1_def c_def)
  then show ?thesis
    using p1 by (simp add: Let_def cleanup_phase2 [OF i1] c_def)
qed

text \<open>
  Claim C6, as amended. On an initialised store: after \<open>cleanup\<close> no session has a
  \<open>createdAt\<close> before the cutoff (the time of the call less \<open>maxAge\<close> days); when every
  session is stored under the id it carries, at most \<open>maxSessions\<close> sessions remain; and
  when no session is older than the cutoff and the cap is not exceeded, \<open>cleanup\<close> leaves
  sessions, messages, embeddings and the fallback store as they were.
\<close>

theorem cleanup_contract:
  assumes "isInitialized db"
  shows "(\<forall>(k, s)\<in>set (sessions (cleanup now db)).
            \<not> s_createdAt s < now - maxAge (cleanupPolicy (config db)) * 24 * 60 * 60 * 1000) \<and>
         (mapsDistinct db \<and> keyedById db \<longrightarrow>
            length (sessions (cleanup now db)) \<le> maxSessions (cleanupPolicy (config db))) \<and>
         ((\<forall>(k, s)\<in>set (sessions db).
              \<not> s_createdAt s < now - maxAge (cleanupPolicy (config db)) * 24 * 60 * 60 * 1000) \<and>
          length (sessions db) \<le> maxSessions (cleanupPolicy (config db)) \<longrightarrow>
            sessions (cleanup now db) = sessions db \<and> messages (cleanup now db) = messages db \<and>
            messageEmbeddings (cleanup now db) = messageEmbeddings db \<and>
            fallbackStore (cleanup now db) = fallbackStore db)"
proof -
  define c where "c = now - maxAge (cleanupPolicy (config db)) * 24 * 60 * 60 * 1000"
  define n where "n = maxSessions (cleanupPolicy (config db))"
  define X where "X = fst ` {x \<in> set (sessions db). s_createdAt (snd x) < c}"
  define m1 where "m1 = filter (\<lambda>(k, s). k \<notin> X) (sessions db)"
  define ranked where "ranked = sort_key (\<lambda>s. - s_updatedAt s) (map snd m1)"
  from cleanup_sessions [OF assms(1), of now]
  have r: "sessions (cleanup now db) =
             (if length ranked > n then filter (\<lambda>(k, s). k \<notin> s_id ` set (drop n ranked)) m1 else m1)"
    by (simp add: Let_def c_def n_def X_def m1_def ranked_def)
  have young: "\<not> s_createdAt s < c" if "(k, s) \<in> set m1" for k s
  proof
    assume "s_createdAt s < c"
    with that have "k \<in> X" by (force simp: m1_def X_def)
    with that show False by (simp add: m1_def)
  qed
  have sub: "set (sessions (cleanup now db)) \<subseteq> set m1" by (auto simp: r)
  have age: "\<forall>(k, s)\<in>set (sessions (cleanup now db)). \<not> s_createdAt s < c"
    using sub young by blast
  have cap: "length (sessions (cleanup now db)) \<le> n" if md: "mapsDistinct db" and kd: "keyedById db"
  proof (cases "length ranked > n")
    have keyed: "list_all (\<lambda>(k, s). s_id s = k) m1"
      using kd by (auto simp: keyedById_def m1_def list_all_iff)
    have "distinct (map fst m1)"
      using md by (simp add: mapsDistinct_def m1_def distinct_map_filter)
    then have ids: "distinct (map s_id (map snd m1))" by (simp only: keyed_ids [OF keyed])
    case True
    have "length (filter (\<lambda>(k, s). k \<notin> s_id ` set (drop n ranked)) m1)
            = length (filter (\<lambda>s. s_id s \<notin> s_id ` set (drop n ranked)) (map snd m1))"
      by (rule keyed_filter_length [OF keyed])
    also have "\<dots> \<le> n"
      by (rule cap_length [OF ids]) (simp add: ranked_def)
    finally show ?thesis using True by (simp add: r)
  next
    case False
    then show ?thesis by (simp add: r ranked_def)
  qed
  have idem: "sessions (cleanup now db) = sessions db \<and> messages (cleanup now db) = messages db \<and>
            messageEmbeddings (cleanup now db) = messageEmbeddings db \<and>
            fallbackStore (cleanup now db) = fallbackStore db"
    if q: "\<forall>(k, s)\<in>set (sessions db). \<not> s_createdAt s < c" and l: "length (sessions db) \<le> n"
  proof -
    from q have "\<forall>x\<in>set (sessions db). \<not> s_createdAt (snd x) < c" by auto
    then have "fold (\<lambda>(ident, session) d.
                     if s_createdAt session < c then deleteSession now ident d else d) (sessions db) db = db"
      using fold_deleteSession_noop [of "sessions db" "\<lambda>x. s_createdAt (snd x) < c" now fst db]
      by (simp add: case_prod_unfold)
    with l assms(1) have "cleanup now db = saveToStorage now db"
      by (simp add: cleanup_def Let_def c_def n_def)
    then show ?thesis by simp
  qed
  from age cap idem show ?thesis
    unfolding c_def n_def by blast
qed

theorem cleanup_contract_witness:
  "isInitialized agedStore \<and> mapsDistinct agedStore \<and> keyedById agedStore \<and>
   map s_createdAt (map snd (sessions agedStore)) = [0, 3024000000, 3110400000] \<and>
   maxSessions (cleanupPolicy (config agedStore)) = 1 \<and>
   3456000000 - maxAge (cleanupPolicy (config agedStore)) * 24 * 60 * 60 * 1000 = 864000000 \<and>
   map fst (sessions (cleanup 3456000000 agedStore)) = [''session_3110400000_c''] \<and>
   list_all (\<lambda>(k, s). \<not> s_createdAt s < 864000000) (sessions (cleanup 3456000000 agedStore)) \<and>
   length (sessions (cleanup 3456000000 agedStore)) \<le> 1 \<and>
   isInitialized (cleanup 3456000000 agedStore) \<and>
   sessions (cleanup 3456000000 (cleanup 3456000000 agedStore)) = sessions (cleanup 3456000000 agedStore) \<and>
   messages (cleanup 3456000000 (cleanup 3456000000 agedStore)) = messages (cleanup 3456000000 agedStore)"
proof -
  have i: "isInitialized agedStore" by (simp add: agedStore_eq)
  have d: "mapsDistinct agedStore" by (simp add: agedStore_eq mapsDistinct_def)
  have k: "keyedById agedStore" by (simp add: agedStore_eq keyedById_def)
  have t: "map s_createdAt (map snd (sessions agedStore)) = [0, 3024000000, 3110400000]"
    by (simp add: agedStore_eq)
  have n: "maxSessions (cleanupPolicy (config agedStore)) = 1" by (simp add: agedStore_eq)
  have c: "3456000000 - maxAge (cleanupPolicy (config agedStore)) * 24 * 60 * 60 * 1000 = 864000000"
    by (simp add: agedStore_eq)
  have r: "map fst (sessions (cleanup 3456000000 agedStore)) = [''session_3110400000_c'']"
    by (simp add: cleanup_agedStore)
  have i': "isInitialized (cleanup 3456000000 agedStore)" by (simp add: cleanup_agedStore)
  have c': "config (cleanup 3456000000 agedStore) = config agedStore"
    unfolding cleanup_agedStore by (simp add: agedStore_eq)
  have l': "length (sessions (cleanup 3456000000 agedStore)) \<le> 1" by (simp add: cleanup_agedStore)
  note first = cleanup_contract [OF i, of 3456000000, unfolded c n]
  note second = cleanup_contract [OF i', of 3456000000, unfolded c' c n]
  from first d k
  have a: "\<forall>(k, s)\<in>set (sessions (cleanup 3456000000 agedStore)). \<not> s_createdAt s < 864000000"
    and b: "length (sessions (cleanup 3456000000 agedStore)) \<le> 1"
    by blast+
  from second a l'
  have e: "sessions (cleanup 3456000000 (cleanup 3456000000 agedStore)) = sessions (cleanup 3456000000 agedStore)"
          "messages (cleanup 3456000000 (cleanup 3456000000 agedStore)) = messages (cleanup 3456000000 agedStore)"
    by blast+
  from a have a': "list_all (\<lambda>(k, s). \<not> s_createdAt s < 864000000) (sessions (cleanup 3456000000 agedStore))"
    by (simp only: list_all_iff)
  from i d k t n c r a' b i' e show ?thesis by blast
qed

text \<open>
  The claim as stated fails on a store reached through the public operations: after
  \<open>updateSession\<close> has given the older session a new \<open>id\<close> field, \<open>cleanup\<close> asks
  \<open>deleteSession\<close> to delete that \<open>id\<close>, under which nothing is stored, and both sessions
  remain under a cap of one.
\<close>

theorem cleanup_cap_counterexample:
  "isInitialized mixStore \<and> maxSessions (cleanupPolicy (config mixStore)) = 1 \<and>
   length (sessions (cleanup 4 mixStore)) = 2"
proof -
  have "length (map fst (sessions (cleanup 4 mixStore))) = 2" by (simp only: cleanup_mixStore) simp
  then show ?thesis by (simp add: mixStore_eq)
qed

end
